theory Spec2Isabelle
  imports Main "HOL-Library.Sublist"
begin

section \<open>Python strings\<close>

text \<open>
  A Python \<open>str\<close> is a sequence of Unicode code points, so a text is a list of code
  points and \<open>length\<close> counts what \<open>len\<close> counts. \<open>u\<close> reads an ASCII literal of
  the script as such a text.
\<close>

type_synonym cp = nat
type_synonym str = "cp list"

definition u :: "string \<Rightarrow> str" where
  "u s = map of_char s"

text \<open>\<open>str(n)\<close> for an integer, and \<open>str.zfill\<close>.\<close>

fun digits :: "nat \<Rightarrow> str" where
  "digits n = (if n < 10 then [48 + n] else digits (n div 10) @ [48 + n mod 10])"

declare digits.simps [simp del]

definition py_str :: "int \<Rightarrow> str" where
  "py_str i = (if i < 0 then 45 # digits (nat (- i)) else digits (nat i))"

definition zfill :: "nat \<Rightarrow> str \<Rightarrow> str" where
  "zfill width s =
     (case s of
        c # rest \<Rightarrow>
          if c = 43 \<or> c = 45 then c # replicate (width - length s) 48 @ rest
          else replicate (width - length s) 48 @ s
      | [] \<Rightarrow> replicate width 48)"

text \<open>\<open>needle in haystack\<close> for two strings.\<close>

fun contains :: "str \<Rightarrow> str \<Rightarrow> bool" where
  "contains needle [] = (needle = [])"
| "contains needle (c # cs) = (prefix needle (c # cs) \<or> contains needle cs)"

section \<open>The part of the Unicode database that the patterns reach\<close>

text \<open>
  \<open>\s\<close> in a \<open>str\<close> pattern is \<open>str.isspace\<close>: the complete list of white-space
  code points.
\<close>

definition isspace :: "cp \<Rightarrow> bool" where
  "isspace c =
     ((9 \<le> c \<and> c \<le> 13) \<or> (28 \<le> c \<and> c \<le> 32) \<or> c = 0x85 \<or> c = 0xA0 \<or> c = 0x1680
      \<or> (0x2000 \<le> c \<and> c \<le> 0x200A) \<or> c = 0x2028 \<or> c = 0x2029 \<or> c = 0x202F
      \<or> c = 0x205F \<or> c = 0x3000)"

text \<open>
  The simple lower-case mapping that the regular-expression engine applies under
  \<open>re.IGNORECASE\<close>. Every pattern of the script compares it with ASCII letters only,
  and the code points it sends to an ASCII letter are exactly \<open>A\<close>..\<open>Z\<close>, U+0130
  (capital I with dot above, to \<open>i\<close>) and U+212A (Kelvin sign, to \<open>k\<close>). Those are the
  entries kept here; every other code point is left where it is, which for the
  non-ASCII letters omitted here is again a code point outside the ASCII letters.
\<close>

definition tolower :: "cp \<Rightarrow> cp" where
  "tolower c =
     (if 65 \<le> c \<and> c \<le> 90 then c + 32
      else if c = 0x130 then 0x69
      else if c = 0x212A then 0x6B
      else c)"

text \<open>
  The engine's table of lower-case code points that fold together although neither
  is the lower case of the other: long s with \<open>s\<close>, dotless i with \<open>i\<close>. Entries
  for non-ASCII keys are not reached by the patterns.
\<close>

definition fixes_of :: "cp \<Rightarrow> cp list" where
  "fixes_of lo = (if lo = 0x69 then [0x131] else if lo = 0x73 then [0x17F] else [])"

text \<open>Whether a pattern character has case; the patterns are ASCII.\<close>

definition iscased :: "cp \<Rightarrow> bool" where
  "iscased c = ((65 \<le> c \<and> c \<le> 90) \<or> (97 \<le> c \<and> c \<le> 122))"

text \<open>
  \<open>str.upper\<close> of one code point (the full mapping may give several). The entries
  are those of the ASCII letters and of the four non-ASCII letters that
  \<open>[A-Z]\<close> matches when case is ignored; \<open>upper\<close> is applied to nothing else.
\<close>

definition upper_cp :: "cp \<Rightarrow> str" where
  "upper_cp c =
     (if 97 \<le> c \<and> c \<le> 122 then [c - 32]
      else if c = 0x131 then [0x49]
      else if c = 0x17F then [0x53]
      else [c])"

definition str_upper :: "str \<Rightarrow> str" where
  "str_upper s = concat (map upper_cp s)"

text \<open>
  The two large tables, \<open>\d\<close> (decimal digits) and \<open>\w\<close> (alphanumerics, for
  \<open>\b\<close>), belong to the interpreter that runs the script.
\<close>

record unicode_tables =
  isdecimal :: "cp \<Rightarrow> bool"
  isalnum :: "cp \<Rightarrow> bool"

section \<open>Regular expressions, as \<open>re.search\<close> with \<open>re.IGNORECASE\<close> runs them\<close>

datatype setitem = SLit cp | SRange cp cp | SSpace

datatype single = Lit cp | Dot | Space | Digit | Set "setitem list"

text \<open>
  An atom is one character, a greedy repetition of one character (\<open>x?\<close> is
  \<open>Rep x 0 (Some 1)\<close>, \<open>x+\<close> is \<open>Rep x 1 None\<close>, \<open>x{5}\<close> is \<open>Rep x 5 (Some 5)\<close>),
  \<open>\b\<close>, or one of the two marks that open and close group 1.
\<close>

datatype atom = One single | Rep single nat "nat option" | Boundary | Mark0 | Mark1

type_synonym pattern = "atom list"

fun item_cased :: "setitem \<Rightarrow> bool" where
  "item_cased (SLit c) = iscased c"
| "item_cased (SRange lo hi) = list_ex iscased [lo..<Suc hi]"
| "item_cased SSpace = False"

fun in_item :: "setitem \<Rightarrow> cp \<Rightarrow> bool" where
  "in_item (SLit c) x = (x = c)"
| "in_item (SRange lo hi) x = (lo \<le> x \<and> x \<le> hi)"
| "in_item SSpace x = isspace x"

text \<open>A set item after the compiler lowered it and added the folded code points.\<close>

definition folds_to :: "cp \<Rightarrow> cp \<Rightarrow> bool" where
  "folds_to c x = (x = tolower c \<or> x \<in> set (fixes_of (tolower c)))"

fun in_item_lowered :: "setitem \<Rightarrow> cp \<Rightarrow> bool" where
  "in_item_lowered (SLit c) x = folds_to c x"
| "in_item_lowered (SRange lo hi) x = list_ex (\<lambda>c. folds_to c x) [lo..<Suc hi]"
| "in_item_lowered SSpace x = isspace x"

definition in_set :: "setitem list \<Rightarrow> cp \<Rightarrow> bool" where
  "in_set items ch =
     (if list_ex item_cased items then list_ex (\<lambda>i. in_item_lowered i (tolower ch)) items
      else list_ex (\<lambda>i. in_item i ch) items)"

fun single_matches :: "unicode_tables \<Rightarrow> single \<Rightarrow> cp \<Rightarrow> bool" where
  "single_matches T (Lit c) ch = (if iscased c then folds_to c (tolower ch) else ch = c)"
| "single_matches T Dot ch = (ch \<noteq> 10)"
| "single_matches T Space ch = isspace ch"
| "single_matches T Digit ch = isdecimal T ch"
| "single_matches T (Set items) ch = in_set items ch"

definition isword :: "unicode_tables \<Rightarrow> cp \<Rightarrow> bool" where
  "isword T c = (isalnum T c \<or> c = 95)"

definition at_boundary :: "unicode_tables \<Rightarrow> str \<Rightarrow> nat \<Rightarrow> bool" where
  "at_boundary T s i =
     ((0 < i \<and> i \<le> length s \<and> isword T (s ! (i - 1))) \<noteq> (i < length s \<and> isword T (s ! i)))"

text \<open>
  A matcher state: the position in the text and the two marks of group 1. Matching
  an atom gives every state the engine can continue from, in the order in which its
  backtracking tries them; a greedy repetition takes as many characters as it can
  and gives them back one at a time.
\<close>

type_synonym mstate = "nat \<times> nat option \<times> nat option"

definition run_length :: "unicode_tables \<Rightarrow> single \<Rightarrow> str \<Rightarrow> nat \<Rightarrow> nat" where
  "run_length T x s i = length (takeWhile (single_matches T x) (drop i s))"

fun match_atom :: "unicode_tables \<Rightarrow> str \<Rightarrow> atom \<Rightarrow> mstate \<Rightarrow> mstate list" where
  "match_atom T s (One x) (i, a, b) =
     (if i < length s \<and> single_matches T x (s ! i) then [(Suc i, a, b)] else [])"
| "match_atom T s (Rep x lo hi) (i, a, b) =
     (let avail = run_length T x s i;
          n = (case hi of None \<Rightarrow> avail | Some h \<Rightarrow> min h avail)
      in if n < lo then [] else map (\<lambda>k. (i + k, a, b)) (rev [lo..<Suc n]))"
| "match_atom T s Boundary (i, a, b) = (if at_boundary T s i then [(i, a, b)] else [])"
| "match_atom T s Mark0 (i, a, b) = [(i, Some i, b)]"
| "match_atom T s Mark1 (i, a, b) = [(i, a, Some i)]"

fun match_seq :: "unicode_tables \<Rightarrow> str \<Rightarrow> pattern \<Rightarrow> mstate \<Rightarrow> mstate list" where
  "match_seq T s [] st = [st]"
| "match_seq T s (x # xs) st = concat (map (match_seq T s xs) (match_atom T s x st))"

text \<open>\<open>re.search\<close>: the first start position, from the left, at which the pattern matches.\<close>

fun search_from :: "unicode_tables \<Rightarrow> pattern \<Rightarrow> str \<Rightarrow> nat list \<Rightarrow> mstate option" where
  "search_from T p s [] = None"
| "search_from T p s (i # is) =
     (case match_seq T s p (i, None, None) of
        [] \<Rightarrow> search_from T p s is
      | m # _ \<Rightarrow> Some m)"

definition re_search :: "unicode_tables \<Rightarrow> pattern \<Rightarrow> str \<Rightarrow> mstate option" where
  "re_search T p s = search_from T p s [0..<Suc (length s)]"

text \<open>\<open>match.group(1)\<close>; \<open>None\<close> when the group took no part in the match.\<close>

fun group1 :: "str \<Rightarrow> mstate \<Rightarrow> str option" where
  "group1 s (i, Some a, Some b) = Some (take (b - a) (drop a s))"
| "group1 s (i, _, _) = None"

section \<open>The extraction patterns\<close>

definition lits :: "string \<Rightarrow> pattern" where
  "lits s = map (\<lambda>c. One (Lit (of_char c))) s"

definition opt :: "single \<Rightarrow> atom" where
  "opt x = Rep x 0 (Some 1)"

definition plus :: "single \<Rightarrow> atom" where
  "plus x = Rep x 1 None"

text \<open>\<open>([A-Z]{5})\<close>\<close>

definition capture5 :: pattern where
  "capture5 = [Mark0, Rep (Set [SRange 65 90]) 5 (Some 5), Mark1]"

text \<open>\<open>[:\s]+\<close>\<close>

definition colon_or_space :: atom where
  "colon_or_space = plus (Set [SLit 58, SSpace])"

text \<open>
  The list \<open>patterns\<close> of the script, in its order:
  \<^enum> \<^verbatim>\<open>Today.?s?\s+word\s+is\s+([A-Z]{5})\<close>
  \<^enum> \<^verbatim>\<open>Today.?s?\s+Word[:\s]+([A-Z]{5})\<close>
  \<^enum> \<^verbatim>\<open>answer\s+to\s+Wordle\s+\d+\s+is\s+([A-Z]{5})\<close>
  \<^enum> \<^verbatim>\<open>answer\s+is\s+([A-Z]{5})\<close>
  \<^enum> \<^verbatim>\<open>solution\s+is\s+([A-Z]{5})\<close>
  \<^enum> \<^verbatim>\<open>Wordle\s+\d+\s+answer[:\s]+([A-Z]{5})\<close>
  \<^enum> \<^verbatim>\<open>\b([A-Z]{5})\s+is\s+the\s+answer\<close>
  \<^enum> \<^verbatim>\<open>The word is[:\s]+([A-Z]{5})\<close>
\<close>

definition patterns :: "pattern list" where
  "patterns =
    [ lits ''Today'' @ [opt Dot, opt (Lit 115), plus Space] @ lits ''word'' @ [plus Space]
        @ lits ''is'' @ [plus Space] @ capture5,
      lits ''Today'' @ [opt Dot, opt (Lit 115), plus Space] @ lits ''Word'' @ [colon_or_space]
        @ capture5,
      lits ''answer'' @ [plus Space] @ lits ''to'' @ [plus Space] @ lits ''Wordle''
        @ [plus Space, plus Digit, plus Space] @ lits ''is'' @ [plus Space] @ capture5,
      lits ''answer'' @ [plus Space] @ lits ''is'' @ [plus Space] @ capture5,
      lits ''solution'' @ [plus Space] @ lits ''is'' @ [plus Space] @ capture5,
      lits ''Wordle'' @ [plus Space, plus Digit, plus Space] @ lits ''answer''
        @ [colon_or_space] @ capture5,
      [Boundary] @ capture5 @ [plus Space] @ lits ''is'' @ [plus Space] @ lits ''the''
        @ [plus Space] @ lits ''answer'',
      lits ''The word is'' @ [colon_or_space] @ capture5 ]"

section \<open>Errors and results\<close>

text \<open>
  A call either returns or raises; the exception carries its message. Every exception
  here is an \<open>Exception\<close>, which both \<open>except Exception\<close> and a bare \<open>except\<close> catch.
\<close>

datatype 'a outcome = Ok 'a | Raise str

definition attribute_error :: str where
  "attribute_error = [39] @ u ''NoneType'' @ [39] @ u '' object has no attribute '' @ [39]
     @ u ''upper'' @ [39]"

text \<open>
  The loop over the patterns: the first pattern that matches anywhere gives the word,
  upper-cased. \<open>.upper()\<close> on a group that is \<open>None\<close> raises.
\<close>

fun find_word :: "unicode_tables \<Rightarrow> pattern list \<Rightarrow> str \<Rightarrow> str option outcome" where
  "find_word T [] page_text = Ok None"
| "find_word T (p # ps) page_text =
     (case re_search T p page_text of
        None \<Rightarrow> find_word T ps page_text
      | Some m \<Rightarrow>
          (case group1 page_text m of
             None \<Rightarrow> Raise attribute_error
           | Some g \<Rightarrow> Ok (Some (str_upper g))))"

section \<open>Dates\<close>

record datetime =
  year :: int
  month :: int
  day :: int
  hour :: int
  minute :: int
  second :: int
  microsecond :: int

definition is_leap :: "int \<Rightarrow> bool" where
  "is_leap y = (y mod 4 = 0 \<and> (y mod 100 \<noteq> 0 \<or> y mod 400 = 0))"

definition days_in_month :: "int \<Rightarrow> int \<Rightarrow> int" where
  "days_in_month y m =
     (if m = 2 then (if is_leap y then 29 else 28)
      else if m = 4 \<or> m = 6 \<or> m = 9 \<or> m = 11 then 30 else 31)"

definition days_before_year :: "int \<Rightarrow> int" where
  "days_before_year y = (let p = y - 1 in p * 365 + p div 4 - p div 100 + p div 400)"

definition days_before_month :: "int \<Rightarrow> int \<Rightarrow> int" where
  "days_before_month y m = sum_list (map (days_in_month y) [1..m - 1])"

definition toordinal :: "datetime \<Rightarrow> int" where
  "toordinal t = days_before_year (year t) + days_before_month (year t) (month t) + day t"

definition microseconds_of_day :: "datetime \<Rightarrow> int" where
  "microseconds_of_day t =
     ((hour t * 60 + minute t) * 60 + second t) * 1000000 + microsecond t"

definition valid_datetime :: "datetime \<Rightarrow> bool" where
  "valid_datetime t =
     (1 \<le> year t \<and> year t \<le> 9999 \<and> 1 \<le> month t \<and> month t \<le> 12
      \<and> 1 \<le> day t \<and> day t \<le> days_in_month (year t) (month t)
      \<and> 0 \<le> hour t \<and> hour t < 24 \<and> 0 \<le> minute t \<and> minute t < 60
      \<and> 0 \<le> second t \<and> second t < 60 \<and> 0 \<le> microsecond t \<and> microsecond t < 1000000)"

text \<open>
  \<open>t + timedelta(days=1)\<close>: the same time on the next calendar day, and
  \<open>OverflowError\<close> past the last day of year 9999.
\<close>

definition plus_one_day :: "datetime \<Rightarrow> datetime outcome" where
  "plus_one_day t =
     (if day t < days_in_month (year t) (month t) then Ok (t\<lparr>day := day t + 1\<rparr>)
      else if month t < 12 then Ok (t\<lparr>month := month t + 1, day := 1\<rparr>)
      else if year t < 9999 then Ok (t\<lparr>year := year t + 1, month := 1, day := 1\<rparr>)
      else Raise (u ''date value out of range''))"

text \<open>\<open>(a - b).days\<close>: the difference in whole days, rounded down.\<close>

definition days_between :: "datetime \<Rightarrow> datetime \<Rightarrow> int" where
  "days_between a b =
     toordinal a - toordinal b
       + (microseconds_of_day a - microseconds_of_day b) div 86400000000"

definition WORDLE_START_DATE :: datetime where
  "WORDLE_START_DATE =
     \<lparr>year = 2021, month = 6, day = 19, hour = 0, minute = 0, second = 0, microsecond = 0\<rparr>"

text \<open>
  \<open>strftime('%m/%d/%Y')\<close>: month and day with two digits; the year as the C library
  prints it, which is four digits for every year from 1000 on.
\<close>

definition strftime_mdY :: "datetime \<Rightarrow> str" where
  "strftime_mdY t =
     zfill 2 (py_str (month t)) @ u ''/'' @ zfill 2 (py_str (day t)) @ u ''/'' @ py_str (year t)"

text \<open>
  Lines 16 to 28: tomorrow, the game number and the review URL, from the two readings
  of the clock.
\<close>

definition review_url :: "datetime \<Rightarrow> int \<Rightarrow> str" where
  "review_url today game_number =
     u ''https://www.nytimes.com/'' @ py_str (year today) @ u ''/''
       @ zfill 2 (py_str (month today)) @ u ''/'' @ zfill 2 (py_str (day today))
       @ u ''/crosswords/wordle-review-'' @ py_str game_number @ u ''.html''"

definition compute_target :: "datetime \<Rightarrow> datetime \<Rightarrow> (datetime \<times> int \<times> str) outcome" where
  "compute_target now1 now2 =
     (case plus_one_day now1 of
        Raise e \<Rightarrow> Raise e
      | Ok tomorrow \<Rightarrow>
          (let game_number = days_between tomorrow WORDLE_START_DATE
           in Ok (tomorrow, game_number, review_url now2 game_number)))"

section \<open>The world the script runs in\<close>

text \<open>
  What the script does to its surroundings, in the order in which it does it: every
  line printed and every call to the browser library, the file system and the
  operating system. An event is recorded when the call is made, whether it returns
  or raises.
\<close>

datatype event =
    Print str
  | PlaywrightStart
  | PlaywrightStop
  | ConnectOverCDP str
  | NewPage
  | Goto str nat str
  | WaitForTimeout nat
  | WaitForSelector str nat
  | Click str
  | TextContent str
  | PageContent
  | WriteFile str str
  | PageClose
  | BrowserClose
  | OsSystem str
  | SubprocessRun "str list" str

record completed_process =
  returncode :: int
  stdout :: str
  stderr :: str

text \<open>
  What the surroundings answer, one field for each place where the script asks:
  the two readings of the clock (lines 17 and 22), the interpreter's Unicode tables,
  and the outcome of each call. \<open>wait_for_selector\<close> returns an element (\<open>True\<close>) or
  \<open>None\<close> (\<open>False\<close>); it, \<open>click\<close> and the wait after a click are asked once for each
  selector. \<open>browser.close()\<close> is called at three places (lines 70, 184 and 206).
\<close>

record world =
  now_first :: datetime
  now_second :: datetime
  tables :: unicode_tables
  playwright_start :: "unit outcome"
  connect_over_cdp :: "unit outcome"
  has_context :: bool
  new_page :: "unit outcome"
  goto :: "str \<Rightarrow> unit outcome"
  wait_for_load :: "unit outcome"
  wait_for_selector :: "str \<Rightarrow> bool outcome"
  click :: "str \<Rightarrow> unit outcome"
  wait_after_click :: "str \<Rightarrow> unit outcome"
  text_content :: "str option outcome"
  page_content :: "str outcome"
  write_file :: "str \<Rightarrow> str \<Rightarrow> unit outcome"
  page_close :: "unit outcome"
  close_without_context :: "unit outcome"
  close_after_extraction :: "unit outcome"
  close_in_handler :: "unit outcome"
  os_name_is_nt :: bool
  debug_path :: str
  script_dir :: str
  subprocess_run :: "str list \<Rightarrow> completed_process outcome"

text \<open>The record that \<open>fetch_nyt_wordle\<close> returns.\<close>

record word_data =
  word :: str
  game_number :: int
  date :: str

text \<open>A function returns a value or lets an exception escape to its caller.\<close>

datatype 'a result = Returned 'a | Uncaught str

text \<open>Sequencing: print lines, record events, make a call that may raise.\<close>

definition emit :: "event list \<Rightarrow> event list \<times> 'a \<Rightarrow> event list \<times> 'a" where
  "emit evs k = (evs @ fst k, snd k)"

definition say :: "str list \<Rightarrow> event list \<times> 'a \<Rightarrow> event list \<times> 'a" where
  "say lines k = emit (map Print lines) k"

definition call ::
  "event \<Rightarrow> 'a outcome \<Rightarrow> ('a \<Rightarrow> event list \<times> 'b outcome) \<Rightarrow> event list \<times> 'b outcome" where
  "call ev r k = (case r of Raise e \<Rightarrow> ([ev], Raise e) | Ok x \<Rightarrow> emit [ev] (k x))"

definition rule70 :: str where
  "rule70 = replicate 70 61"

definition dashes70 :: str where
  "dashes70 = replicate 70 45"

definition apostrophe :: str where
  "apostrophe = [39]"

definition dquote :: str where
  "dquote = [34]"

section \<open>\<open>fetch_nyt_wordle\<close>\<close>

text \<open>Lines 30 to 39.\<close>

definition banner :: "datetime \<Rightarrow> int \<Rightarrow> str \<Rightarrow> str list" where
  "banner tomorrow gn url =
     [rule70, u ''NYT WORDLE WORD FETCHER'', rule70,
      u ''Tomorrow'' @ apostrophe @ u ''s date: '' @ strftime_mdY tomorrow,
      u ''Game number: #'' @ py_str gn,
      u ''Review URL: '' @ url,
      [],
      u ''Opening browser... (you may need to log in to NYT)'',
      rule70,
      []]"

text \<open>Lines 48 to 61.\<close>

definition connect_guidance :: "str list" where
  "connect_guidance =
     [[], rule70, u ''[ERROR] Could not connect to browser'', rule70, [],
      u ''Please start Edge or Chrome with remote debugging enabled:'', [],
      u ''  Option 1 - Edge (recommended):'', u ''    Run: start-edge-debug.bat'', [],
      u ''  Option 2 - Chrome:'', u ''    Run: start-chrome-debug.bat'', [],
      rule70]"

text \<open>Lines 89 to 96.\<close>

definition reveal_selectors :: "str list" where
  "reveal_selectors =
     [u ''text='' @ dquote @ u ''Click to reveal'' @ dquote,
      u ''button:has-text('' @ dquote @ u ''Click to reveal'' @ dquote @ u '')'',
      u ''button:has-text('' @ dquote @ u ''reveal'' @ dquote @ u '')'',
      u ''[aria-label*='' @ dquote @ u ''reveal'' @ dquote @ u '']'',
      u ''.reveal-button'',
      u ''button.spoiler-reveal'']"

text \<open>
  Lines 98 to 109, the loop over the selectors, with the flag \<open>clicked\<close>. Whatever
  a selector's wait, click or pause raises, the bare \<open>except\<close> goes on to the next
  selector; the loop stops at the first selector whose element was clicked and
  whose pause returned.
\<close>

fun reveal_loop :: "world \<Rightarrow> str list \<Rightarrow> event list \<times> bool" where
  "reveal_loop w [] = ([], False)"
| "reveal_loop w (selector # rest) =
     (case wait_for_selector w selector of
        Raise e \<Rightarrow> emit [WaitForSelector selector 3000] (reveal_loop w rest)
      | Ok False \<Rightarrow> emit [WaitForSelector selector 3000] (reveal_loop w rest)
      | Ok True \<Rightarrow>
          (case click w selector of
             Raise e \<Rightarrow>
               emit [WaitForSelector selector 3000, Click selector] (reveal_loop w rest)
           | Ok _ \<Rightarrow>
               (case wait_after_click w selector of
                  Ok _ \<Rightarrow>
                    ([WaitForSelector selector 3000, Click selector,
                      Print (u ''[OK] Clicked reveal button!''), WaitForTimeout 1000], True)
                | Raise e \<Rightarrow>
                    ([WaitForSelector selector 3000, Click selector,
                      Print (u ''[OK] Clicked reveal button!''), WaitForTimeout 1000]
                       @ fst (reveal_loop w rest), True))))"

text \<open>
  Lines 87 to 115. Nothing in the loop lets an exception out, so the handler of
  line 114 is never entered.
\<close>

definition reveal :: "world \<Rightarrow> event list" where
  "reveal w =
     (case reveal_loop w reveal_selectors of
        (evs, clicked) \<Rightarrow>
          evs @ (if \<not> clicked
                 then [Print (u ''[WARNING] Could not find reveal button, trying to extract anyway...'')]
                 else []))"

text \<open>Lines 148 to 160: the page is saved for debugging, best effort.\<close>

definition could_not_save :: "str \<Rightarrow> event" where
  "could_not_save e = Print (u ''Could not save debug info: '' @ e)"

definition save_debug :: "world \<Rightarrow> str \<Rightarrow> event list" where
  "save_debug w page_text =
     (case page_content w of
        Raise e \<Rightarrow> [PageContent, could_not_save e]
      | Ok html \<Rightarrow>
          (case write_file w (debug_path w) html of
             Raise e \<Rightarrow> [PageContent, WriteFile (debug_path w) html, could_not_save e]
           | Ok _ \<Rightarrow>
               [PageContent, WriteFile (debug_path w) html,
                Print ([10] @ u ''Page saved to: '' @ debug_path w),
                Print (u ''First 1000 chars of page text:''),
                Print dashes70,
                Print (if page_text \<noteq> [] then take 1000 page_text else u ''No text found''),
                Print dashes70]))"

text \<open>
  Lines 142 to 164: no word. The function returns \<open>None\<close> with the page and the
  browser left open.
\<close>

definition not_found :: "world \<Rightarrow> str \<Rightarrow> event list \<times> word_data option outcome" where
  "not_found w page_text =
     say [[], u ''[ERROR] Could not find the Wordle answer on the page.'',
          u ''The page might have a different format than expected.'']
       (emit (save_debug w page_text)
         (say [[]] ([], Ok None)))"

definition kill_edge :: "world \<Rightarrow> event" where
  "kill_edge w =
     OsSystem (if os_name_is_nt w then u ''taskkill /F /IM msedge.exe >nul 2>&1''
               else u ''pkill -f msedge'')"

text \<open>Lines 166 to 200: a word was found.\<close>

definition finish ::
  "world \<Rightarrow> str \<Rightarrow> datetime \<Rightarrow> int \<Rightarrow> event list \<times> word_data option outcome" where
  "finish w wd tomorrow gn =
     (let date_str = strftime_mdY tomorrow in
      say [[], rule70, u ''INFORMATION GATHERED'', rule70,
           u ''Word:        '' @ wd,
           u ''Game:        #'' @ py_str gn,
           u ''Date:        '' @ date_str,
           rule70, []]
        (call PageClose (page_close w) (\<lambda>_.
           say [u ''[OK] Browser tab closed'']
             (call BrowserClose (close_after_extraction w) (\<lambda>_.
                emit [kill_edge w]
                  (say [u ''[OK] Browser closed'']
                     ([], Ok (Some \<lparr>word = wd, game_number = gn, date = date_str\<rparr>))))))))"

definition type_error :: str where
  "type_error = u ''expected string or bytes-like object, got '' @ apostrophe
     @ u ''NoneType'' @ apostrophe"

text \<open>
  Lines 122 to 200, from the page text on. \<open>re.search\<close> raises on a page text that
  is \<open>None\<close>; \<open>not word\<close> holds for \<open>None\<close> and for the empty string.
\<close>

definition extract_word ::
  "world \<Rightarrow> datetime \<Rightarrow> int \<Rightarrow> str option \<Rightarrow> event list \<times> word_data option outcome" where
  "extract_word w tomorrow gn page_text =
     (case page_text of
        None \<Rightarrow> ([], Raise type_error)
      | Some t \<Rightarrow>
          (case find_word (tables w) patterns t of
             Raise e \<Rightarrow> ([], Raise e)
           | Ok None \<Rightarrow> not_found w t
           | Ok (Some wd) \<Rightarrow>
               say [u ''[OK] Found word: '' @ wd]
                 (if wd = [] then not_found w t else finish w wd tomorrow gn)))"

text \<open>Lines 77 to 200, the body of the outer \<open>try\<close>.\<close>

definition try_body ::
  "world \<Rightarrow> datetime \<Rightarrow> int \<Rightarrow> str \<Rightarrow> event list \<times> word_data option outcome" where
  "try_body w tomorrow gn url =
     say [u ''[1/4] Navigating to NYT review article...'']
       (call (Goto url 30000 (u ''domcontentloaded'')) (goto w url) (\<lambda>_.
          call (WaitForTimeout 2000) (wait_for_load w) (\<lambda>_.
            say [u ''[2/4] Page loaded successfully!'',
                 u ''[3/4] Looking for '' @ apostrophe @ u ''Click to reveal'' @ apostrophe
                   @ u '' button...'']
              (emit (reveal w)
                (say [u ''[4/4] Extracting Wordle answer from page...'']
                  (call (TextContent (u ''body'')) (text_content w)
                     (extract_word w tomorrow gn)))))))"

text \<open>Lines 202 to 215, the handler of the outer \<open>try\<close>; it returns \<open>None\<close>.\<close>

definition handler :: "world \<Rightarrow> str \<Rightarrow> event list" where
  "handler w e =
     [Print (u ''[ERROR] '' @ e), Print [], BrowserClose]
       @ (case close_in_handler w of
            Raise _ \<Rightarrow> []
          | Ok _ \<Rightarrow>
              [OsSystem (if os_name_is_nt w then u ''taskkill /F /IM msedge.exe >nul 2>&1''
                         else u ''pkill -f '' @ dquote @ u ''msedge.*remote-debugging-port=9222''
                                @ dquote)])"

text \<open>Lines 41 to 215, the body of \<open>async with\<close>.\<close>

definition session ::
  "world \<Rightarrow> datetime \<Rightarrow> int \<Rightarrow> str \<Rightarrow> event list \<times> word_data option result" where
  "session w tomorrow gn url =
     (case connect_over_cdp w of
        Raise e \<Rightarrow>
          ([Print (u ''Connecting to your browser...''),
            ConnectOverCDP (u ''http://localhost:9222'')] @ map Print connect_guidance,
           Returned None)
      | Ok _ \<Rightarrow>
          emit [Print (u ''Connecting to your browser...''),
                ConnectOverCDP (u ''http://localhost:9222''),
                Print (u ''[OK] Connected to browser!'')]
            (if \<not> has_context w then
               ([Print (u ''[ERROR] No browser context found''), BrowserClose],
                case close_without_context w of
                  Raise e \<Rightarrow> Uncaught e
                | Ok _ \<Rightarrow> Returned None)
             else
               (case new_page w of
                  Raise e \<Rightarrow> ([NewPage], Uncaught e)
                | Ok _ \<Rightarrow>
                    emit [NewPage]
                      (case try_body w tomorrow gn url of
                         (evs, Ok r) \<Rightarrow> (evs, Returned r)
                       | (evs, Raise e) \<Rightarrow> (evs @ handler w e, Returned None)))))"

definition fetch_nyt_wordle :: "world \<Rightarrow> event list \<times> word_data option result" where
  "fetch_nyt_wordle w =
     (case compute_target (now_first w) (now_second w) of
        Raise e \<Rightarrow> ([], Uncaught e)
      | Ok (tomorrow, gn, url) \<Rightarrow>
          say (banner tomorrow gn url)
            (case playwright_start w of
               Raise e \<Rightarrow> ([PlaywrightStart], Uncaught e)
             | Ok _ \<Rightarrow>
                 (case session w tomorrow gn url of
                    (evs, r) \<Rightarrow> ([PlaywrightStart] @ evs @ [PlaywrightStop], r))))"

section \<open>\<open>add_word_to_database\<close> and \<open>main\<close>\<close>

definition argv :: "word_data \<Rightarrow> str list" where
  "argv wd = [u ''node'', u ''add-word.mjs'', word wd, date wd]"

definition duplicate_notice :: "event list" where
  "duplicate_notice =
     map Print [[], rule70, u ''[INFO] Word was not added - already exists in database'', rule70]"

definition failure_notice :: "event list" where
  "failure_notice =
     map Print [[], rule70, u ''[ERROR] Failed to add word to database'', rule70]"

text \<open>Lines 244 and 245.\<close>

definition is_duplicate :: "completed_process \<Rightarrow> bool" where
  "is_duplicate r =
     (let combined_output = stdout r @ stderr r
      in contains (u ''already exists'') combined_output
         \<or> contains (u ''No changes made'') combined_output)"

definition add_word_to_database :: "world \<Rightarrow> word_data \<Rightarrow> event list \<times> bool" where
  "add_word_to_database w wd =
     say [rule70, u ''[5/5] Adding '' @ word wd @ u '' to database...'', rule70, []]
       (emit [SubprocessRun (argv wd) (script_dir w)]
          (case subprocess_run w (argv wd) of
             Raise e \<Rightarrow> ([Print (u ''[ERROR] '' @ e)], False)
           | Ok r \<Rightarrow>
               emit (Print (stdout r) # (if stderr r \<noteq> [] then [Print (stderr r)] else []))
                 (if returncode r \<noteq> 0 then
                    (if is_duplicate r then (duplicate_notice, False)
                     else (failure_notice, False))
                  else ([], True))))"

text \<open>Lines 278 to 287.\<close>

definition final_result :: "bool \<Rightarrow> word_data \<Rightarrow> str list" where
  "final_result added wd =
     [[], rule70, u ''FINAL RESULT'', rule70,
      (if added then u ''SUCCESS: '' @ word wd @ u '' added to database and committed to GitHub!''
       else u ''COMPLETE: '' @ word wd @ u '' was already in the database, no changes made''),
      rule70, []]"

definition main :: "world \<Rightarrow> event list \<times> unit result" where
  "main w =
     say [[]]
       (case fetch_nyt_wordle w of
          (evs, Uncaught e) \<Rightarrow> (evs, Uncaught e)
        | (evs, Returned None) \<Rightarrow>
            emit evs (say [[], u ''[FAILED] Could not fetch Wordle word''] ([], Returned ()))
        | (evs, Returned (Some wd)) \<Rightarrow>
            emit evs
              (case add_word_to_database w wd of
                 (evs2, added) \<Rightarrow>
                   emit evs2 (say (final_result added wd) ([], Returned ()))))"

section \<open>Predicates used in the statements\<close>

text \<open>
  A pattern captures five letters when it is \<open>([A-Z]{5})\<close> between two parts that
  hold no group.
\<close>

definition mark_free :: "pattern \<Rightarrow> bool" where
  "mark_free p = (Mark0 \<notin> set p \<and> Mark1 \<notin> set p)"

definition captures_five :: "pattern \<Rightarrow> bool" where
  "captures_five p = (\<exists>pre post. p = pre @ capture5 @ post \<and> mark_free pre \<and> mark_free post)"

text \<open>
  The 56 code points that \<open>[A-Z]\<close> matches when case is ignored: the 52 ASCII
  letters, capital I with dot above (U+0130), dotless i (U+0131), long s (U+017F)
  and the Kelvin sign (U+212A).
\<close>

definition folded_letter :: "cp \<Rightarrow> bool" where
  "folded_letter c =
     ((65 \<le> c \<and> c \<le> 90) \<or> (97 \<le> c \<and> c \<le> 122)
      \<or> c = 0x130 \<or> c = 0x131 \<or> c = 0x17F \<or> c = 0x212A)"

text \<open>
  Their upper case: \<open>A\<close>..\<open>Z\<close>, and the two upper-case letters (Unicode category
  Lu) U+0130 and U+212A, which \<open>str.upper\<close> leaves as they are.
\<close>

definition uppercase_letter :: "cp \<Rightarrow> bool" where
  "uppercase_letter c = ((65 \<le> c \<and> c \<le> 90) \<or> c = 0x130 \<or> c = 0x212A)"


text \<open>Kinds of events, to pick them out of a trace.\<close>

fun is_print :: "event \<Rightarrow> bool" where
  "is_print (Print _) = True"
| "is_print _ = False"

fun is_connect :: "event \<Rightarrow> bool" where
  "is_connect (ConnectOverCDP _) = True"
| "is_connect _ = False"

fun is_new_page :: "event \<Rightarrow> bool" where
  "is_new_page NewPage = True"
| "is_new_page _ = False"

fun is_goto :: "event \<Rightarrow> bool" where
  "is_goto (Goto _ _ _) = True"
| "is_goto _ = False"

fun is_text_content :: "event \<Rightarrow> bool" where
  "is_text_content (TextContent _) = True"
| "is_text_content _ = False"

fun is_subprocess :: "event \<Rightarrow> bool" where
  "is_subprocess (SubprocessRun _ _) = True"
| "is_subprocess _ = False"

fun is_close :: "event \<Rightarrow> bool" where
  "is_close PageClose = True"
| "is_close BrowserClose = True"
| "is_close _ = False"

fun is_selector_wait :: "event \<Rightarrow> bool" where
  "is_selector_wait (WaitForSelector _ _) = True"
| "is_selector_wait _ = False"


text \<open>
  An event of the later blocks of \<open>fetch_nyt_wordle\<close>: a printed line, the start and
  stop of the library, saving the page for debugging, closing, or killing the browser.
\<close>

fun is_housekeeping :: "event \<Rightarrow> bool" where
  "is_housekeeping (Print _) = True"
| "is_housekeeping PlaywrightStart = True"
| "is_housekeeping PlaywrightStop = True"
| "is_housekeeping PageContent = True"
| "is_housekeeping (WriteFile _ _) = True"
| "is_housekeeping PageClose = True"
| "is_housekeeping BrowserClose = True"
| "is_housekeeping (OsSystem _) = True"
| "is_housekeeping _ = False"



text \<open>
  How far a run gets, read off the world: the page is opened when the clock, the
  library, the connection, the context and the new tab all succeed; it is loaded
  when the navigation and the pause after it succeed too; its text is read when
  \<open>text_content\<close> then returns a string.
\<close>

definition opens_page :: "world \<Rightarrow> bool" where
  "opens_page w =
     (case compute_target (now_first w) (now_second w) of
        Raise _ \<Rightarrow> False
      | Ok _ \<Rightarrow>
          playwright_start w = Ok () \<and> connect_over_cdp w = Ok () \<and> has_context w
          \<and> new_page w = Ok ())"

definition loads_page :: "world \<Rightarrow> bool" where
  "loads_page w =
     (case compute_target (now_first w) (now_second w) of
        Raise _ \<Rightarrow> False
      | Ok (tomorrow, gn, url) \<Rightarrow>
          opens_page w \<and> goto w url = Ok () \<and> wait_for_load w = Ok ())"

definition reads_page_text :: "world \<Rightarrow> str \<Rightarrow> bool" where
  "reads_page_text w t = (loads_page w \<and> text_content w = Ok (Some t))"



definition date_of :: "datetime \<Rightarrow> int \<times> int \<times> int" where
  "date_of t = (year t, month t, day t)"

text \<open>The game number and the URL of a run, when the clock lets them be computed.\<close>

definition game_and_url :: "world \<Rightarrow> (int \<times> str) option" where
  "game_and_url w =
     (case compute_target (now_first w) (now_second w) of
        Raise _ \<Rightarrow> None
      | Ok (tomorrow, gn, url) \<Rightarrow> Some (gn, url))"

section \<open>Sample worlds\<close>

definition ascii_tables :: unicode_tables where
  "ascii_tables =
     \<lparr>isdecimal = (\<lambda>c. 48 \<le> c \<and> c \<le> 57),
      isalnum = (\<lambda>c. (48 \<le> c \<and> c \<le> 57) \<or> (65 \<le> c \<and> c \<le> 90) \<or> (97 \<le> c \<and> c \<le> 122))\<rparr>"

definition noon :: datetime where
  "noon = \<lparr>year = 2026, month = 11, day = 4, hour = 12, minute = 0, second = 0, microsecond = 0\<rparr>"

definition evening :: datetime where
  "evening = \<lparr>year = 2026, month = 11, day = 4, hour = 21, minute = 30, second = 15, microsecond = 7\<rparr>"

text \<open>A run in which every call succeeds and the page says \<open>answer is fruit\<close>.\<close>

definition happy_world :: world where
  "happy_world =
     \<lparr>now_first = noon, now_second = noon, tables = ascii_tables,
      playwright_start = Ok (), connect_over_cdp = Ok (), has_context = True,
      new_page = Ok (), goto = (\<lambda>_. Ok ()), wait_for_load = Ok (),
      wait_for_selector = (\<lambda>_. Ok True), click = (\<lambda>_. Ok ()),
      wait_after_click = (\<lambda>_. Ok ()),
      text_content = Ok (Some (u ''answer is fruit'')),
      page_content = Ok (u ''<html></html>''), write_file = (\<lambda>_ _. Ok ()),
      page_close = Ok (), close_without_context = Ok (), close_after_extraction = Ok (),
      close_in_handler = Ok (), os_name_is_nt = True,
      debug_path = u ''debug-page.html'', script_dir = u ''scripts'',
      subprocess_run = (\<lambda>_. Ok \<lparr>returncode = 0, stdout = u ''added'', stderr = []\<rparr>)\<rparr>"

text \<open>The same run with a page that holds no answer.\<close>

definition no_answer_world :: world where
  "no_answer_world = happy_world\<lparr>text_content := Ok (Some (u ''come back later''))\<rparr>"

text \<open>The same run with no browser listening on the debugging port.\<close>

definition no_browser_world :: world where
  "no_browser_world = happy_world\<lparr>connect_over_cdp := Raise (u ''connect ECONNREFUSED'')\<rparr>"

text \<open>The same run with no reveal button on the page: every wait times out.\<close>

definition no_button_world :: world where
  "no_button_world = happy_world\<lparr>wait_for_selector := (\<lambda>_. Raise (u ''Timeout 3000ms exceeded''))\<rparr>"




definition fruit :: word_data where
  "fruit = \<lparr>word = u ''FRUIT'', game_number = 1965, date = u ''11/05/2026''\<rparr>"

section \<open>What a pattern can capture\<close>

lemma match_atom_keeps_marks:
  assumes "x \<noteq> Mark0" "x \<noteq> Mark1" "(j, a', b') \<in> set (match_atom T s x (i, a, b))"
  shows "a' = a \<and> b' = b"
  using assms by (cases x) (auto simp: Let_def split: if_splits)

lemma match_seq_keeps_marks:
  "mark_free p \<Longrightarrow> (j, a', b') \<in> set (match_seq T s p (i, a, b)) \<Longrightarrow> a' = a \<and> b' = b"
proof (induction p arbitrary: i)
  case Nil
  then show ?case by simp
next
  case (Cons x xs)
  from Cons.prems(2) obtain st where st: "st \<in> set (match_atom T s x (i, a, b))"
    and in_rest: "(j, a', b') \<in> set (match_seq T s xs st)"
    by auto
  obtain k c d where st_eq: "st = (k, c, d)" by (cases st) auto
  from Cons.prems(1) have "x \<noteq> Mark0" "x \<noteq> Mark1" "mark_free xs"
    by (auto simp: mark_free_def)
  with st st_eq have "c = a \<and> d = b"
    using match_atom_keeps_marks by blast
  with Cons.IH [OF \<open>mark_free xs\<close>] in_rest st_eq show ?case by blast
qed

lemma match_seq_append:
  "m \<in> set (match_seq T s (p @ q) st) \<longleftrightarrow>
     (\<exists>st' \<in> set (match_seq T s p st). m \<in> set (match_seq T s q st'))"
  by (induction p arbitrary: st) auto

lemma match_capture5:
  "match_seq T s capture5 (i, a, b) =
     (if 5 \<le> run_length T (Set [SRange 65 90]) s i then [(i + 5, Some i, Some (i + 5))] else [])"
  by (simp add: capture5_def Let_def)

lemma run_length_chars:
  assumes "n \<le> run_length T x s i" "0 < n"
  shows "i + n \<le> length s \<and> (\<forall>k<n. single_matches T x (s ! (i + k)))"
proof -
  let ?run = "takeWhile (single_matches T x) (drop i s)"
  have len: "n \<le> length ?run" using assms by (simp add: run_length_def)
  have "length ?run \<le> length (drop i s)" by (rule length_takeWhile_le)
  with len assms(2) have bound: "i + n \<le> length s" by simp
  have "single_matches T x (s ! (i + k))" if "k < n" for k
  proof -
    from that len have k: "k < length ?run" by simp
    then have "single_matches T x (?run ! k)" by (meson nth_mem set_takeWhileD)
    moreover have "?run ! k = drop i s ! k" using k by (rule takeWhile_nth)
    moreover have "drop i s ! k = s ! (i + k)" using bound that by simp
    ultimately show ?thesis by simp
  qed
  with bound show ?thesis by blast
qed

lemma folds_to_AZ:
  "(\<exists>x\<in>{65..90}. folds_to x y) \<longleftrightarrow> (97 \<le> y \<and> y \<le> 122) \<or> y = 0x131 \<or> y = 0x17F"
proof
  assume "\<exists>x\<in>{65..90}. folds_to x y"
  then obtain x where "65 \<le> x" "x \<le> 90" "folds_to x y" by auto
  then show "(97 \<le> y \<and> y \<le> 122) \<or> y = 0x131 \<or> y = 0x17F"
    by (auto simp: folds_to_def tolower_def fixes_of_def split: if_splits)
next
  assume r: "(97 \<le> y \<and> y \<le> 122) \<or> y = 0x131 \<or> y = 0x17F"
  then consider "97 \<le> y \<and> y \<le> 122" | "y = 0x131" | "y = 0x17F" by blast
  then show "\<exists>x\<in>{65..90}. folds_to x y"
  proof cases
    case 1
    then have "y - 32 \<in> {65..90}" "folds_to (y - 32) y"
      by (auto simp: folds_to_def tolower_def)
    then show ?thesis by blast
  next
    case 2
    have "(73::nat) \<in> {65..90}" "folds_to 73 0x131"
      by (auto simp: folds_to_def tolower_def fixes_of_def)
    with 2 show ?thesis by blast
  next
    case 3
    have "(83::nat) \<in> {65..90}" "folds_to 83 0x17F"
      by (auto simp: folds_to_def tolower_def fixes_of_def)
    with 3 show ?thesis by blast
  qed
qed

lemma in_AZ_ignorecase: "in_set [SRange 65 90] c = folded_letter c"
proof -
  have cased: "list_ex iscased [65..<Suc 90]"
    by (simp add: list_ex_iff iscased_def)
  have "list_ex (\<lambda>x. folds_to x (tolower c)) [65..<Suc 90]
          \<longleftrightarrow> (\<exists>x\<in>{65..90}. folds_to x (tolower c))"
    by (simp only: list_ex_iff set_upt atLeastLessThanSuc_atLeastAtMost)
  also have "\<dots> \<longleftrightarrow> folded_letter c"
    unfolding folds_to_AZ by (auto simp: folded_letter_def tolower_def)
  finally show ?thesis using cased by (simp add: in_set_def)
qed

lemma upper_cp_folded_letter:
  "folded_letter c \<Longrightarrow> \<exists>d. upper_cp c = [d] \<and> uppercase_letter d"
  by (auto simp: folded_letter_def upper_cp_def uppercase_letter_def)

lemma str_upper_letters:
  "\<forall>c\<in>set g. folded_letter c \<Longrightarrow>
     length (str_upper g) = length g \<and> (\<forall>d\<in>set (str_upper g). uppercase_letter d)"
proof (induction g)
  case Nil
  then show ?case by (simp add: str_upper_def)
next
  case (Cons c g)
  then obtain d where "upper_cp c = [d]" "uppercase_letter d"
    using upper_cp_folded_letter by fastforce
  with Cons show ?case by (simp add: str_upper_def)
qed

lemma captured_group:
  assumes "captures_five p" "m \<in> set (match_seq T s p (i, None, None))"
  shows "\<exists>g. group1 s m = Some g \<and> length g = 5 \<and> (\<forall>c\<in>set g. folded_letter c)
              \<and> set g \<subseteq> set s"
proof -
  from assms(1) obtain pre post where p: "p = pre @ capture5 @ post"
    and free: "mark_free pre" "mark_free post"
    by (auto simp: captures_five_def)
  from assms(2) p obtain st1 st2 where
    st1: "st1 \<in> set (match_seq T s pre (i, None, None))" and
    st2: "st2 \<in> set (match_seq T s capture5 st1)" and
    m: "m \<in> set (match_seq T s post st2)"
    by (auto simp: match_seq_append)
  obtain j a b where st1_eq: "st1 = (j, a, b)" by (cases st1) auto
  from st2 st1_eq have run: "5 \<le> run_length T (Set [SRange 65 90]) s j"
    and st2_eq: "st2 = (j + 5, Some j, Some (j + 5))"
    by (auto simp: match_capture5 split: if_splits)
  obtain k a' b' where m_eq: "m = (k, a', b')" by (cases m) auto
  with m st2_eq free(2) have marks: "a' = Some j" "b' = Some (j + 5)"
    using match_seq_keeps_marks by blast+
  from run have bound: "j + 5 \<le> length s"
    and chars: "\<forall>k<5. single_matches T (Set [SRange 65 90]) (s ! (j + k))"
    using run_length_chars [of 5 T "Set [SRange 65 90]" s j] by auto
  let ?g = "take 5 (drop j s)"
  have "group1 s m = Some ?g" using m_eq marks by simp
  moreover have "length ?g = 5" using bound by simp
  moreover have "\<forall>c\<in>set ?g. folded_letter c"
  proof
    fix c assume "c \<in> set ?g"
    then obtain k where "k < 5" "c = ?g ! k"
      using \<open>length ?g = 5\<close> by (metis in_set_conv_nth)
    then have "c = s ! (j + k)" using bound by simp
    with chars \<open>k < 5\<close> show "folded_letter c" by (simp add: in_AZ_ignorecase)
  qed
  moreover have "set ?g \<subseteq> set s"
    by (meson set_take_subset set_drop_subset subset_trans)
  ultimately show ?thesis by blast
qed

lemma search_from_member:
  "search_from T p s is = Some m \<Longrightarrow> \<exists>i. m \<in> set (match_seq T s p (i, None, None))"
proof (induction "is")
  case Nil
  then show ?case by simp
next
  case (Cons i "is")
  show ?case
  proof (cases "match_seq T s p (i, None, None)")
    case Nil
    with Cons show ?thesis by simp
  next
    case (Cons m' rest)
    with Cons.prems have "m = m'" by simp
    with Cons have "m \<in> set (match_seq T s p (i, None, None))" by simp
    then show ?thesis by blast
  qed
qed

lemma captures_five_base: "mark_free post \<Longrightarrow> captures_five (capture5 @ post)"
  unfolding captures_five_def
  by (rule exI [of _ "[]"], rule exI [of _ post]) (simp add: mark_free_def)

lemma captures_five_end: "captures_five capture5"
  using captures_five_base [of "[]"] by (simp add: mark_free_def)

lemma captures_five_append:
  assumes "mark_free a" "captures_five p"
  shows "captures_five (a @ p)"
proof -
  from assms(2) obtain pre post where "p = pre @ capture5 @ post" "mark_free pre" "mark_free post"
    by (auto simp: captures_five_def)
  with assms(1) have "a @ p = (a @ pre) @ capture5 @ post" "mark_free (a @ pre)"
    by (auto simp: mark_free_def)
  with \<open>mark_free post\<close> show ?thesis unfolding captures_five_def by blast
qed

lemma mark_free_lits: "mark_free (lits s)"
  by (auto simp: mark_free_def lits_def)

lemma mark_free_list:
  "mark_free [] \<and> mark_free [Boundary] \<and> mark_free [plus x] \<and> mark_free [colon_or_space]
   \<and> mark_free [opt x, opt y, plus z] \<and> mark_free [plus x, plus y, plus z]"
  by (simp add: mark_free_def plus_def opt_def colon_or_space_def)

lemma mark_free_append: "mark_free a \<Longrightarrow> mark_free b \<Longrightarrow> mark_free (a @ b)"
  by (auto simp: mark_free_def)

lemma patterns_capture_five: "\<forall>p\<in>set patterns. captures_five p"
  unfolding patterns_def
  by (auto simp del: append_Cons append_Nil
        intro!: captures_five_append captures_five_end captures_five_base
                mark_free_lits mark_free_append mark_free_list [THEN conjunct1]
                mark_free_list [THEN conjunct2, THEN conjunct1]
                mark_free_list [THEN conjunct2, THEN conjunct2, THEN conjunct1]
                mark_free_list [THEN conjunct2, THEN conjunct2, THEN conjunct2, THEN conjunct1]
                mark_free_list [THEN conjunct2, THEN conjunct2, THEN conjunct2, THEN conjunct2, THEN conjunct1]
                mark_free_list [THEN conjunct2, THEN conjunct2, THEN conjunct2, THEN conjunct2, THEN conjunct2])

lemma upper_cp_ascii:
  "folded_letter c \<Longrightarrow> c < 128 \<Longrightarrow> \<exists>d. upper_cp c = [d] \<and> 65 \<le> d \<and> d \<le> 90"
  by (auto simp: folded_letter_def upper_cp_def)

lemma str_upper_ascii:
  "\<forall>c\<in>set g. folded_letter c \<and> c < 128 \<Longrightarrow> \<forall>d\<in>set (str_upper g). 65 \<le> d \<and> d \<le> 90"
proof (induction g)
  case Nil
  then show ?case by (simp add: str_upper_def)
next
  case (Cons c g)
  then obtain d where "upper_cp c = [d]" "65 \<le> d" "d \<le> 90"
    using upper_cp_ascii by fastforce
  with Cons show ?case by (simp add: str_upper_def)
qed

text \<open>
  Whatever \<open>find_word\<close> finds is the upper case of five letters of the page that
  \<open>[A-Z]\<close> matched with case ignored; it never raises.
\<close>

lemma find_word_group:
  assumes "\<forall>p\<in>set ps. captures_five p"
  shows "find_word T ps t = Ok None
         \<or> (\<exists>p\<in>set ps. \<exists>m g. re_search T p t = Some m \<and> group1 t m = Some g
               \<and> find_word T ps t = Ok (Some (str_upper g))
               \<and> length g = 5 \<and> (\<forall>c\<in>set g. folded_letter c) \<and> set g \<subseteq> set t)"
  using assms
proof (induction ps)
  case Nil
  then show ?case by simp
next
  case (Cons p ps)
  show ?case
  proof (cases "re_search T p t")
    case None
    with Cons show ?thesis by auto
  next
    case (Some m)
    then have "search_from T p t [0..<Suc (length t)] = Some m"
      by (simp only: re_search_def)
    then obtain i where "m \<in> set (match_seq T t p (i, None, None))"
      using search_from_member by blast
    moreover have "captures_five p" using Cons.prems(1) by simp
    ultimately obtain g where g: "group1 t m = Some g" "length g = 5"
      "\<forall>c\<in>set g. folded_letter c" "set g \<subseteq> set t"
      using captured_group by blast
    with Some have "find_word T (p # ps) t = Ok (Some (str_upper g))" by simp
    with g Some have "\<exists>m g. re_search T p t = Some m \<and> group1 t m = Some g
               \<and> find_word T (p # ps) t = Ok (Some (str_upper g))
               \<and> length g = 5 \<and> (\<forall>c\<in>set g. folded_letter c) \<and> set g \<subseteq> set t"
      by blast
    then show ?thesis by (intro disjI2 bexI [of _ p]) simp_all
  qed
qed

lemma find_word_shape:
  assumes "\<forall>p\<in>set ps. captures_five p"
  shows "find_word T ps t = Ok None
         \<or> (\<exists>wd. find_word T ps t = Ok (Some wd) \<and> length wd = 5
                  \<and> (\<forall>c\<in>set wd. uppercase_letter c)
                  \<and> ((\<forall>c\<in>set t. c < 128) \<longrightarrow> (\<forall>c\<in>set wd. 65 \<le> c \<and> c \<le> 90)))"
proof -
  from find_word_group [OF assms, of T t] show ?thesis
  proof
    assume "find_word T ps t = Ok None"
    then show ?thesis by simp
  next
    assume "\<exists>p\<in>set ps. \<exists>m g. re_search T p t = Some m \<and> group1 t m = Some g
               \<and> find_word T ps t = Ok (Some (str_upper g))
               \<and> length g = 5 \<and> (\<forall>c\<in>set g. folded_letter c) \<and> set g \<subseteq> set t"
    then obtain g where g: "find_word T ps t = Ok (Some (str_upper g))" "length g = 5"
      "\<forall>c\<in>set g. folded_letter c" "set g \<subseteq> set t"
      by blast
    have "(\<forall>c\<in>set t. c < 128) \<longrightarrow> (\<forall>c\<in>set (str_upper g). 65 \<le> c \<and> c \<le> 90)"
    proof
      assume "\<forall>c\<in>set t. c < 128"
      with g(3,4) have "\<forall>c\<in>set g. folded_letter c \<and> c < 128" by blast
      then show "\<forall>c\<in>set (str_upper g). 65 \<le> c \<and> c \<le> 90" by (rule str_upper_ascii)
    qed
    with g str_upper_letters [of g] show ?thesis by simp
  qed
qed

section \<open>Evaluating the sample worlds, and the sequencing functions\<close>

lemmas regex_eval = u_def lits_def opt_def plus_def capture5_def colon_or_space_def
  re_search_def run_length_def folds_to_def tolower_def fixes_of_def iscased_def isspace_def
  in_set_def at_boundary_def isword_def ascii_tables_def Let_def upper_cp_def str_upper_def

lemmas date_eval = compute_target_def plus_one_day_def days_between_def toordinal_def
  days_before_year_def days_before_month_def days_in_month_def is_leap_def
  microseconds_of_day_def WORDLE_START_DATE_def review_url_def strftime_mdY_def
  py_str_def zfill_def digits.simps noon_def upto.simps

lemma no_answer_no_match:
  "\<forall>p\<in>set patterns. re_search ascii_tables p (u ''come back later'') = None"
  by (simp add: patterns_def regex_eval)

lemma happy_target:
  "compute_target noon noon =
     Ok (noon\<lparr>day := 5\<rparr>, 1965,
         u ''https://www.nytimes.com/2026/11/04/crosswords/wordle-review-1965.html'')"
  by (simp add: date_eval u_def)

lemma happy_date: "strftime_mdY (noon\<lparr>day := 5\<rparr>) = u ''11/05/2026''"
  by (simp add: date_eval u_def)

lemma happy_find:
  "find_word ascii_tables patterns (u ''answer is fruit'') = Ok (Some (u ''FRUIT''))"
  by (simp add: patterns_def regex_eval)

lemma u_empty [simp]: "u s = [] \<longleftrightarrow> s = []"
  by (simp add: u_def)

lemma valid_noon: "valid_datetime noon"
  by (simp add: valid_datetime_def noon_def days_in_month_def)

lemma fst_emit [simp]: "fst (emit evs k) = evs @ fst k"
  and snd_emit [simp]: "snd (emit evs k) = snd k"
  by (simp_all add: emit_def)

lemma fst_say [simp]: "fst (say ls k) = map Print ls @ fst k"
  and snd_say [simp]: "snd (say ls k) = snd k"
  by (simp_all add: say_def)

lemma fst_call:
  "fst (call ev r k) = ev # (case r of Raise e \<Rightarrow> [] | Ok x \<Rightarrow> fst (k x))"
  by (simp add: call_def split: outcome.splits)

lemma snd_call:
  "snd (call ev r k) = (case r of Raise e \<Rightarrow> Raise e | Ok x \<Rightarrow> snd (k x))"
  by (simp add: call_def split: outcome.splits)

section \<open>The blocks of \<open>fetch_nyt_wordle\<close>, one at a time\<close>

lemma find_word_none_iff:
  "find_word T ps t = Ok None \<longleftrightarrow> (\<forall>p\<in>set ps. re_search T p t = None)"
  by (induction ps) (auto split: option.splits)

lemma find_word_patterns:
  "find_word T patterns t = Ok None
   \<or> (\<exists>wd. find_word T patterns t = Ok (Some wd) \<and> length wd = 5
            \<and> (\<forall>c\<in>set wd. uppercase_letter c)
            \<and> ((\<forall>c\<in>set t. c < 128) \<longrightarrow> (\<forall>c\<in>set wd. 65 \<le> c \<and> c \<le> 90)))"
  using find_word_shape [OF patterns_capture_five] .

subsection \<open>What each block returns\<close>

lemma snd_not_found: "snd (not_found w t) = Ok None"
  by (simp add: not_found_def)

lemma snd_finish:
  "snd (finish w wd tomorrow gn) =
     (case page_close w of
        Raise e \<Rightarrow> Raise e
      | Ok _ \<Rightarrow>
          (case close_after_extraction w of
             Raise e \<Rightarrow> Raise e
           | Ok _ \<Rightarrow> Ok (Some \<lparr>word = wd, game_number = gn, date = strftime_mdY tomorrow\<rparr>)))"
  by (simp add: finish_def Let_def snd_call split: outcome.splits)

lemma snd_extract_word:
  "snd (extract_word w tomorrow gn page_text) =
     (case page_text of
        None \<Rightarrow> Raise type_error
      | Some t \<Rightarrow>
          (case find_word (tables w) patterns t of
             Raise e \<Rightarrow> Raise e
           | Ok None \<Rightarrow> Ok None
           | Ok (Some wd) \<Rightarrow> if wd = [] then Ok None else snd (finish w wd tomorrow gn)))"
  by (simp add: extract_word_def snd_not_found split: option.splits outcome.splits)

lemma snd_try_body:
  "snd (try_body w tomorrow gn url) =
     (case goto w url of
        Raise e \<Rightarrow> Raise e
      | Ok _ \<Rightarrow>
          (case wait_for_load w of
             Raise e \<Rightarrow> Raise e
           | Ok _ \<Rightarrow>
               (case text_content w of
                  Raise e \<Rightarrow> Raise e
                | Ok page_text \<Rightarrow> snd (extract_word w tomorrow gn page_text))))"
  by (simp add: try_body_def snd_call split: outcome.splits)

lemma snd_session:
  "snd (session w tomorrow gn url) =
     (case connect_over_cdp w of
        Raise e \<Rightarrow> Returned None
      | Ok _ \<Rightarrow>
          if \<not> has_context w then
            (case close_without_context w of Raise e \<Rightarrow> Uncaught e | Ok _ \<Rightarrow> Returned None)
          else
            (case new_page w of
               Raise e \<Rightarrow> Uncaught e
             | Ok _ \<Rightarrow>
                 (case snd (try_body w tomorrow gn url) of
                    Ok r \<Rightarrow> Returned r
                  | Raise e \<Rightarrow> Returned None)))"
  by (simp add: session_def split: outcome.splits prod.splits)

lemma snd_fetch:
  "snd (fetch_nyt_wordle w) =
     (case compute_target (now_first w) (now_second w) of
        Raise e \<Rightarrow> Uncaught e
      | Ok (tomorrow, gn, url) \<Rightarrow>
          (case playwright_start w of
             Raise e \<Rightarrow> Uncaught e
           | Ok _ \<Rightarrow> snd (session w tomorrow gn url)))"
  by (simp add: fetch_nyt_wordle_def split: outcome.splits prod.splits)

subsection \<open>What each block does\<close>

lemma fst_not_found:
  "fst (not_found w t) =
     map Print [[], u ''[ERROR] Could not find the Wordle answer on the page.'',
                u ''The page might have a different format than expected.'']
       @ save_debug w t @ [Print []]"
  by (simp add: not_found_def)

lemma fst_finish:
  "fst (finish w wd tomorrow gn) =
     map Print [[], rule70, u ''INFORMATION GATHERED'', rule70,
                u ''Word:        '' @ wd,
                u ''Game:        #'' @ py_str gn,
                u ''Date:        '' @ strftime_mdY tomorrow,
                rule70, []]
       @ PageClose
         # (case page_close w of
              Raise e \<Rightarrow> []
            | Ok _ \<Rightarrow>
                Print (u ''[OK] Browser tab closed'') # BrowserClose
                  # (case close_after_extraction w of
                       Raise e \<Rightarrow> []
                     | Ok _ \<Rightarrow> [kill_edge w, Print (u ''[OK] Browser closed'')]))"
  by (simp add: finish_def Let_def fst_call split: outcome.splits)

lemma fst_extract_word:
  "fst (extract_word w tomorrow gn page_text) =
     (case page_text of
        None \<Rightarrow> []
      | Some t \<Rightarrow>
          (case find_word (tables w) patterns t of
             Raise e \<Rightarrow> []
           | Ok None \<Rightarrow> fst (not_found w t)
           | Ok (Some wd) \<Rightarrow>
               Print (u ''[OK] Found word: '' @ wd)
                 # (if wd = [] then fst (not_found w t) else fst (finish w wd tomorrow gn))))"
  by (simp add: extract_word_def split: option.splits outcome.splits)

lemma fst_try_body:
  "fst (try_body w tomorrow gn url) =
     Print (u ''[1/4] Navigating to NYT review article...'')
       # Goto url 30000 (u ''domcontentloaded'')
       # (case goto w url of
            Raise e \<Rightarrow> []
          | Ok _ \<Rightarrow>
              WaitForTimeout 2000
                # (case wait_for_load w of
                     Raise e \<Rightarrow> []
                   | Ok _ \<Rightarrow>
                       map Print [u ''[2/4] Page loaded successfully!'',
                                  u ''[3/4] Looking for '' @ apostrophe @ u ''Click to reveal''
                                    @ apostrophe @ u '' button...'']
                         @ reveal w
                         @ Print (u ''[4/4] Extracting Wordle answer from page...'')
                         # TextContent (u ''body'')
                         # (case text_content w of
                              Raise e \<Rightarrow> []
                            | Ok page_text \<Rightarrow> fst (extract_word w tomorrow gn page_text))))"
  by (simp add: try_body_def fst_call split: outcome.splits)

lemma fst_session:
  "fst (session w tomorrow gn url) =
     Print (u ''Connecting to your browser...'')
       # ConnectOverCDP (u ''http://localhost:9222'')
       # (case connect_over_cdp w of
            Raise e \<Rightarrow> map Print connect_guidance
          | Ok _ \<Rightarrow>
              Print (u ''[OK] Connected to browser!'')
                # (if \<not> has_context w
                   then [Print (u ''[ERROR] No browser context found''), BrowserClose]
                   else NewPage
                          # (case new_page w of
                               Raise e \<Rightarrow> []
                             | Ok _ \<Rightarrow>
                                 fst (try_body w tomorrow gn url)
                                   @ (case snd (try_body w tomorrow gn url) of
                                        Ok r \<Rightarrow> []
                                      | Raise e \<Rightarrow> handler w e))))"
  by (simp add: session_def split: outcome.splits prod.splits)

lemma fst_fetch:
  "fst (fetch_nyt_wordle w) =
     (case compute_target (now_first w) (now_second w) of
        Raise e \<Rightarrow> []
      | Ok (tomorrow, gn, url) \<Rightarrow>
          map Print (banner tomorrow gn url)
            @ PlaywrightStart
              # (case playwright_start w of
                   Raise e \<Rightarrow> []
                 | Ok _ \<Rightarrow> fst (session w tomorrow gn url) @ [PlaywrightStop]))"
  by (simp add: fetch_nyt_wordle_def split: outcome.splits prod.splits)

lemma fst_main:
  "fst (main w) =
     Print [] # fst (fetch_nyt_wordle w)
       @ (case snd (fetch_nyt_wordle w) of
            Uncaught e \<Rightarrow> []
          | Returned None \<Rightarrow> map Print [[], u ''[FAILED] Could not fetch Wordle word'']
          | Returned (Some wd) \<Rightarrow>
              fst (add_word_to_database w wd)
                @ map Print (final_result (snd (add_word_to_database w wd)) wd))"
  by (simp add: main_def split: prod.splits result.splits option.splits)

lemma snd_main:
  "snd (main w) =
     (case snd (fetch_nyt_wordle w) of Uncaught e \<Rightarrow> Uncaught e | Returned _ \<Rightarrow> Returned ())"
  by (simp add: main_def split: prod.splits result.splits option.splits)

section \<open>The record that is returned, and the dates in it\<close>

lemma fetch_returns_record:
  assumes "snd (fetch_nyt_wordle w) = Returned (Some r)"
  shows "\<exists>tomorrow url t.
           compute_target (now_first w) (now_second w) = Ok (tomorrow, game_number r, url)
           \<and> reads_page_text w t
           \<and> find_word (tables w) patterns t = Ok (Some (word r))
           \<and> page_close w = Ok () \<and> close_after_extraction w = Ok ()
           \<and> date r = strftime_mdY tomorrow"
  using assms
  by (auto simp: snd_fetch snd_session snd_try_body snd_extract_word snd_finish
        reads_page_text_def loads_page_def opens_page_def
        split: outcome.splits option.splits if_splits prod.splits)

subsection \<open>Dates\<close>

lemma days_in_month_bounds: "28 \<le> days_in_month y m \<and> days_in_month y m \<le> 31"
  by (simp add: days_in_month_def)

lemma plus_one_day_valid:
  assumes "valid_datetime t" "plus_one_day t = Ok tm"
  shows "valid_datetime tm"
proof -
  have "28 \<le> days_in_month (year t) (month t + 1)" "28 \<le> days_in_month (year t + 1) 1"
    using days_in_month_bounds by blast+
  with assms show ?thesis
    by (auto simp: plus_one_day_def valid_datetime_def split: if_splits)
qed

lemma microseconds_of_day_bounds:
  assumes "valid_datetime t"
  shows "0 \<le> microseconds_of_day t \<and> microseconds_of_day t < 86400000000"
  using assms by (simp add: valid_datetime_def microseconds_of_day_def)

lemma days_since_start:
  assumes "valid_datetime t"
  shows "days_between t WORDLE_START_DATE = toordinal t - toordinal WORDLE_START_DATE"
proof -
  have "microseconds_of_day WORDLE_START_DATE = 0"
    by (simp add: microseconds_of_day_def WORDLE_START_DATE_def)
  moreover have "microseconds_of_day t div 86400000000 = 0"
    using microseconds_of_day_bounds [OF assms] by simp
  ultimately show ?thesis by (simp add: days_between_def)
qed




lemma plus_one_day_date:
  assumes "date_of a = date_of b"
  shows "(case plus_one_day a of
            Raise e \<Rightarrow> plus_one_day b = Raise e
          | Ok ta \<Rightarrow> (\<exists>tb. plus_one_day b = Ok tb \<and> date_of ta = date_of tb
                             \<and> microseconds_of_day ta = microseconds_of_day a
                             \<and> microseconds_of_day tb = microseconds_of_day b))"
  using assms
  by (auto simp: plus_one_day_def date_of_def microseconds_of_day_def split: outcome.splits)

lemma toordinal_date: "date_of a = date_of b \<Longrightarrow> toordinal a = toordinal b"
  by (simp add: toordinal_def date_of_def)

lemma review_url_date: "date_of a = date_of b \<Longrightarrow> review_url a gn = review_url b gn"
  by (simp add: review_url_def date_of_def)

lemma game_and_url_of_date:
  assumes "valid_datetime (now_first w)" "valid_datetime (now_first w')"
    and "date_of (now_first w) = date_of (now_first w')"
    and "date_of (now_second w) = date_of (now_second w')"
  shows "game_and_url w = game_and_url w'"
proof (cases "plus_one_day (now_first w)")
  case (Raise e)
  with plus_one_day_date [OF assms(3)] have "plus_one_day (now_first w') = Raise e" by simp
  with Raise show ?thesis by (simp add: game_and_url_def compute_target_def)
next
  case (Ok ta)
  with plus_one_day_date [OF assms(3)] obtain tb where
    tb: "plus_one_day (now_first w') = Ok tb" "date_of ta = date_of tb" by auto
  have "valid_datetime ta" "valid_datetime tb"
    using assms(1,2) Ok tb(1) plus_one_day_valid by blast+
  then have "days_between ta WORDLE_START_DATE = days_between tb WORDLE_START_DATE"
    using toordinal_date [OF tb(2)] by (simp add: days_since_start)
  with Ok tb(1) review_url_date [OF assms(4)] show ?thesis
    by (simp add: game_and_url_def compute_target_def Let_def)
qed

section \<open>The hand-off to the external command\<close>

lemma filter_prints [simp]: "filter is_subprocess (map Print ls) = []"
  by (induction ls) auto






text \<open>
  Claim C4. \<open>add_word_to_database\<close> runs the external command once, and its argument
  list is \<open>node add-word.mjs\<close> followed by the word and then the date of the record
  it was given, in the directory of the script.
\<close>

theorem add_word_to_database_arguments:
  "filter is_subprocess (fst (add_word_to_database w wd))
     = [SubprocessRun [u ''node'', u ''add-word.mjs'', word wd, date wd] (script_dir w)]"
  by (simp add: add_word_to_database_def argv_def duplicate_notice_def failure_notice_def
        split: outcome.splits)

section \<open>The word of the record\<close>

lemma happy_fetch: "snd (fetch_nyt_wordle happy_world) = Returned (Some fruit)"
  by (simp add: snd_fetch snd_session snd_try_body snd_extract_word snd_finish
        happy_world_def happy_target happy_find happy_date fruit_def)

text \<open>
  Claim C9. The word of a returned record has exactly five characters, each an
  upper-case letter: one of \<open>A\<close>..\<open>Z\<close>, or U+0130 or U+212A, the two upper-case
  letters outside ASCII that \<open>[A-Z]\<close> matches when case is ignored. It is the upper
  case of what group 1 of the first matching pattern captured in the page text,
  whatever the case on the page; on a page of ASCII text it is five of \<open>A\<close>..\<open>Z\<close>.
\<close>

theorem fetched_word_is_upper_case:
  assumes "snd (fetch_nyt_wordle w) = Returned (Some r)"
  shows "length (word r) = 5 \<and> (\<forall>c\<in>set (word r). uppercase_letter c)
         \<and> (\<exists>t. text_content w = Ok (Some t)
                \<and> (\<exists>p\<in>set patterns. \<exists>m g. re_search (tables w) p t = Some m
                       \<and> group1 t m = Some g \<and> word r = str_upper g)
                \<and> ((\<forall>c\<in>set t. c < 128) \<longrightarrow> (\<forall>c\<in>set (word r). 65 \<le> c \<and> c \<le> 90)))"
proof -
  from fetch_returns_record [OF assms] obtain t where
    t: "text_content w = Ok (Some t)"
    and found: "find_word (tables w) patterns t = Ok (Some (word r))"
    by (auto simp: reads_page_text_def)
  from find_word_patterns [of "tables w" t] found
  have shape: "length (word r) = 5" "\<forall>c\<in>set (word r). uppercase_letter c"
    "(\<forall>c\<in>set t. c < 128) \<longrightarrow> (\<forall>c\<in>set (word r). 65 \<le> c \<and> c \<le> 90)"
    by auto
  from find_word_group [OF patterns_capture_five, of "tables w" t] found
  obtain p m g where "p \<in> set patterns" "re_search (tables w) p t = Some m"
    "group1 t m = Some g" "find_word (tables w) patterns t = Ok (Some (str_upper g))"
    by auto
  with found have "\<exists>p\<in>set patterns. \<exists>m g. re_search (tables w) p t = Some m
          \<and> group1 t m = Some g \<and> word r = str_upper g"
    by (intro bexI [of _ p] exI [of _ m] exI [of _ g]) simp_all
  with t shape show ?thesis by blast
qed

text \<open>The theorem at a page that spells the answer in lower case.\<close>

theorem fetched_word_is_upper_case_witness:
  "snd (fetch_nyt_wordle happy_world) = Returned (Some fruit)
   \<and> text_content happy_world = Ok (Some (u ''answer is fruit''))
   \<and> word fruit = u ''FRUIT'' \<and> length (word fruit) = 5
   \<and> list_all uppercase_letter (word fruit)"
proof -
  have page: "text_content happy_world = Ok (Some (u ''answer is fruit''))"
    by (simp add: happy_world_def)
  have spelled: "word fruit = u ''FRUIT''"
    by (simp add: fruit_def)
  from fetched_word_is_upper_case [OF happy_fetch]
  have "length (word fruit) = 5 \<and> list_all uppercase_letter (word fruit)"
    by (simp add: list_all_iff)
  with happy_fetch page spelled show ?thesis by blast
qed

section \<open>Traces\<close>

subsection \<open>Events that a block cannot produce\<close>

lemma filter_none: "(\<And>e. e \<in> set evs \<Longrightarrow> \<not> P e) \<Longrightarrow> filter P evs = []"
  by (induction evs) auto

lemma filter_map_Print: "(\<And>s. \<not> P (Print s)) \<Longrightarrow> filter P (map Print ls) = []"
  by (induction ls) auto

lemma reveal_loop_quiet:
  assumes "\<And>s. \<not> P (Print s)" "\<And>s t. \<not> P (WaitForSelector s t)" "\<And>s. \<not> P (Click s)"
    "\<And>n. \<not> P (WaitForTimeout n)"
  shows "filter P (fst (reveal_loop w sels)) = []"
  by (induction sels) (auto simp: assms split: outcome.splits bool.splits)

lemma reveal_quiet:
  assumes "\<And>s. \<not> P (Print s)" "\<And>s t. \<not> P (WaitForSelector s t)" "\<And>s. \<not> P (Click s)"
    "\<And>n. \<not> P (WaitForTimeout n)"
  shows "filter P (reveal w) = []"
proof (cases "reveal_loop w reveal_selectors")
  case (Pair evs clicked)
  with reveal_loop_quiet [of P w reveal_selectors, OF assms] have "filter P evs = []" by simp
  with Pair assms(1) show ?thesis by (simp add: reveal_def)
qed

text \<open>A predicate that holds of no housekeeping event finds nothing in the later blocks.\<close>

lemma housekeeping_save_debug: "\<forall>e\<in>set (save_debug w t). is_housekeeping e"
  by (simp add: save_debug_def could_not_save_def split: outcome.splits)

lemma housekeeping_not_found: "\<forall>e\<in>set (fst (not_found w t)). is_housekeeping e"
  using housekeeping_save_debug by (auto simp: fst_not_found)

lemma housekeeping_finish: "\<forall>e\<in>set (fst (finish w wd tomorrow gn)). is_housekeeping e"
  by (auto simp: fst_finish kill_edge_def split: outcome.splits)

lemma housekeeping_extract_word:
  "\<forall>e\<in>set (fst (extract_word w tomorrow gn page_text)). is_housekeeping e"
  using housekeeping_not_found housekeeping_finish
  by (auto simp: fst_extract_word split: option.splits outcome.splits)

lemma housekeeping_handler: "\<forall>e\<in>set (handler w e'). is_housekeeping e"
  by (auto simp: handler_def split: outcome.splits)

lemma later_blocks_quiet:
  assumes "\<And>e. is_housekeeping e \<Longrightarrow> \<not> P e"
  shows "filter P (fst (extract_word w tomorrow gn page_text)) = []"
    and "filter P (handler w e') = []"
  using assms housekeeping_extract_word housekeeping_handler
  by (auto intro!: filter_none)

text \<open>What such a predicate finds in the whole trace lies in its front.\<close>

lemma front_of_try_body:
  assumes "\<And>e. is_housekeeping e \<Longrightarrow> \<not> P e"
  shows "filter P (fst (try_body w tomorrow gn url)) =
     filter P [Goto url 30000 (u ''domcontentloaded'')]
       @ (case goto w url of
            Raise e \<Rightarrow> []
          | Ok _ \<Rightarrow>
              filter P [WaitForTimeout 2000]
                @ (case wait_for_load w of
                     Raise e \<Rightarrow> []
                   | Ok _ \<Rightarrow> filter P (reveal w) @ filter P [TextContent (u ''body'')]))"
proof -
  have "\<And>s. \<not> P (Print s)" using assms by simp
  then show ?thesis
    by (simp add: fst_try_body later_blocks_quiet [OF assms] split: outcome.splits)
qed

lemma front_of_session:
  assumes "\<And>e. is_housekeeping e \<Longrightarrow> \<not> P e"
  shows "filter P (fst (session w tomorrow gn url)) =
     filter P [ConnectOverCDP (u ''http://localhost:9222'')]
       @ (case connect_over_cdp w of
            Raise e \<Rightarrow> []
          | Ok _ \<Rightarrow>
              if \<not> has_context w then []
              else filter P [NewPage]
                     @ (case new_page w of
                          Raise e \<Rightarrow> []
                        | Ok _ \<Rightarrow> filter P (fst (try_body w tomorrow gn url))))"
proof -
  have "\<And>s. \<not> P (Print s)" "\<not> P BrowserClose" using assms by simp_all
  then show ?thesis
    by (simp add: fst_session later_blocks_quiet [OF assms] filter_map_Print
          split: outcome.splits)
qed

lemma front_of_fetch:
  assumes "\<And>e. is_housekeeping e \<Longrightarrow> \<not> P e"
  shows "filter P (fst (fetch_nyt_wordle w)) =
     (case compute_target (now_first w) (now_second w) of
        Raise e \<Rightarrow> []
      | Ok (tomorrow, gn, url) \<Rightarrow>
          (case playwright_start w of
             Raise e \<Rightarrow> []
           | Ok _ \<Rightarrow> filter P (fst (session w tomorrow gn url))))"
proof -
  have "\<And>s. \<not> P (Print s)" "\<not> P PlaywrightStart" "\<not> P PlaywrightStop" using assms by simp_all
  then show ?thesis
    by (simp add: fst_fetch filter_map_Print split: outcome.splits prod.splits)
qed

subsection \<open>Each step at most once\<close>

lemma reveal_no_step [simp]:
  "filter is_connect (reveal w) = []" "filter is_new_page (reveal w) = []"
  "filter is_goto (reveal w) = []" "filter is_text_content (reveal w) = []"
  "filter is_subprocess (reveal w) = []"
  by (rule reveal_quiet; simp)+

lemma housekeeping_no_step:
  assumes "is_housekeeping e"
  shows "\<not> is_connect e" "\<not> is_new_page e" "\<not> is_goto e" "\<not> is_text_content e"
    "\<not> is_subprocess e" "\<not> is_selector_wait e"
  using assms by (cases e; simp)+

lemmas front_of_trace = front_of_fetch front_of_session front_of_try_body


lemma fetch_opens:
  "filter is_new_page (fst (fetch_nyt_wordle w)) =
     (case compute_target (now_first w) (now_second w) of
        Raise e \<Rightarrow> []
      | Ok _ \<Rightarrow>
          if playwright_start w = Ok () \<and> connect_over_cdp w = Ok () \<and> has_context w
          then [NewPage] else [])"
  by (simp add: front_of_trace [of is_new_page] housekeeping_no_step
        split: outcome.splits prod.splits)

lemma fetch_navigates:
  "filter is_goto (fst (fetch_nyt_wordle w)) =
     (case compute_target (now_first w) (now_second w) of
        Raise e \<Rightarrow> []
      | Ok (tomorrow, gn, url) \<Rightarrow>
          if opens_page w then [Goto url 30000 (u ''domcontentloaded'')] else [])"
  by (simp add: front_of_trace [of is_goto] housekeeping_no_step opens_page_def
        split: outcome.splits prod.splits)


lemma fetch_no_subprocess: "filter is_subprocess (fst (fetch_nyt_wordle w)) = []"
  by (simp add: front_of_trace [of is_subprocess] housekeeping_no_step
        split: outcome.splits prod.splits)


lemma add_word_runs_once:
  "filter is_subprocess (fst (add_word_to_database w wd))
     = [SubprocessRun (argv wd) (script_dir w)]"
  by (simp add: add_word_to_database_def duplicate_notice_def failure_notice_def
        split: outcome.splits)

lemma add_word_only_runs:
  "filter is_connect (fst (add_word_to_database w wd)) = []"
  "filter is_new_page (fst (add_word_to_database w wd)) = []"
  "filter is_goto (fst (add_word_to_database w wd)) = []"
  "filter is_text_content (fst (add_word_to_database w wd)) = []"
  "filter is_selector_wait (fst (add_word_to_database w wd)) = []"
  by (simp_all add: add_word_to_database_def duplicate_notice_def failure_notice_def
        split: outcome.splits)

lemma filter_main:
  assumes "\<And>s. \<not> P (Print s)"
  shows "filter P (fst (main w)) =
     filter P (fst (fetch_nyt_wordle w))
       @ (case snd (fetch_nyt_wordle w) of
            Returned (Some wd) \<Rightarrow> filter P (fst (add_word_to_database w wd))
          | _ \<Rightarrow> [])"
  by (simp add: fst_main assms filter_map_Print split: result.splits option.splits)

lemma main_subprocess:
  "filter is_subprocess (fst (main w)) =
     (case snd (fetch_nyt_wordle w) of
        Returned (Some wd) \<Rightarrow> [SubprocessRun (argv wd) (script_dir w)]
      | _ \<Rightarrow> [])"
  by (simp add: filter_main fetch_no_subprocess add_word_runs_once
        split: result.splits option.splits)

subsection \<open>The selectors, in order\<close>
















subsection \<open>The navigation target\<close>

text \<open>
  Claim C8. The game number and the review URL are functions of the date: two runs
  whose clock readings fall on the same date compute the same game number and the
  same URL, whatever the time of day. A run navigates nowhere else: it navigates at
  most once, and then to that URL.
\<close>

theorem target_depends_on_date_only:
  assumes "valid_datetime (now_first w)" and "valid_datetime (now_first w')"
    and "date_of (now_first w) = d" and "date_of (now_second w) = d"
    and "date_of (now_first w') = d" and "date_of (now_second w') = d"
  shows "game_and_url w = game_and_url w'
         \<and> (filter is_goto (fst (main w)) = []
              \<or> (\<exists>gn url. game_and_url w = Some (gn, url)
                    \<and> filter is_goto (fst (main w)) = [Goto url 30000 (u ''domcontentloaded'')]))"
proof -
  have same: "game_and_url w = game_and_url w'"
    using assms by (intro game_and_url_of_date) simp_all
  have "filter is_goto (fst (main w)) = filter is_goto (fst (fetch_nyt_wordle w))"
    by (simp add: filter_main add_word_only_runs split: result.splits option.splits)
  then have "filter is_goto (fst (main w)) = []
              \<or> (\<exists>gn url. game_and_url w = Some (gn, url)
                    \<and> filter is_goto (fst (main w)) = [Goto url 30000 (u ''domcontentloaded'')])"
    by (auto simp: fetch_navigates game_and_url_def split: outcome.splits)
  with same show ?thesis by blast
qed

text \<open>The theorem at a run at noon and a run in the evening of 4 November 2026.\<close>

theorem target_depends_on_date_only_witness:
  "valid_datetime (now_first happy_world)
   \<and> valid_datetime (now_first (happy_world\<lparr>now_first := evening, now_second := evening\<rparr>))
   \<and> date_of (now_first happy_world) = (2026, 11, 4)
   \<and> date_of (now_second happy_world) = (2026, 11, 4)
   \<and> date_of (now_first (happy_world\<lparr>now_first := evening, now_second := evening\<rparr>))
        = (2026, 11, 4)
   \<and> date_of (now_second (happy_world\<lparr>now_first := evening, now_second := evening\<rparr>))
        = (2026, 11, 4)
   \<and> game_and_url happy_world
        = game_and_url (happy_world\<lparr>now_first := evening, now_second := evening\<rparr>)
   \<and> game_and_url happy_world
        = Some (1965, u ''https://www.nytimes.com/2026/11/04/crosswords/wordle-review-1965.html'')"
proof -
  let ?late = "happy_world\<lparr>now_first := evening, now_second := evening\<rparr>"
  have v1: "valid_datetime (now_first happy_world)"
    by (simp add: happy_world_def valid_noon)
  have v2: "valid_datetime (now_first ?late)"
    by (simp add: valid_datetime_def evening_def days_in_month_def)
  have d1: "date_of (now_first happy_world) = (2026, 11, 4)"
    and d2: "date_of (now_second happy_world) = (2026, 11, 4)"
    by (simp_all add: happy_world_def date_of_def noon_def)
  have d3: "date_of (now_first ?late) = (2026, 11, 4)"
    and d4: "date_of (now_second ?late) = (2026, 11, 4)"
    by (simp_all add: date_of_def evening_def)
  have here: "game_and_url happy_world
        = Some (1965, u ''https://www.nytimes.com/2026/11/04/crosswords/wordle-review-1965.html'')"
    by (simp add: game_and_url_def happy_world_def happy_target)
  from target_depends_on_date_only [OF v1 v2 d1 d2 d3 d4] v1 v2 d1 d2 d3 d4 here
  show ?thesis by blast
qed

subsection \<open>A page without an answer\<close>

lemma reads_page_text_facts:
  assumes "reads_page_text w t"
  obtains tomorrow gn url where
    "compute_target (now_first w) (now_second w) = Ok (tomorrow, gn, url)"
    "playwright_start w = Ok ()" "connect_over_cdp w = Ok ()" "has_context w"
    "new_page w = Ok ()" "goto w url = Ok ()" "wait_for_load w = Ok ()"
    "text_content w = Ok (Some t)"
  using assms
  by (auto simp: reads_page_text_def loads_page_def opens_page_def split: outcome.splits)

lemma no_answer_run:
  assumes "reads_page_text w t" and "\<forall>p\<in>set patterns. re_search (tables w) p t = None"
  shows "snd (fetch_nyt_wordle w) = Returned None"
    and "\<exists>pre. fst (fetch_nyt_wordle w) = pre @ fst (not_found w t) @ [PlaywrightStop]"
    and "filter is_new_page (fst (fetch_nyt_wordle w)) = [NewPage]"
    and "filter is_close (fst (fetch_nyt_wordle w)) = []"
proof -
  from assms(1) obtain tomorrow gn url where facts:
    "compute_target (now_first w) (now_second w) = Ok (tomorrow, gn, url)"
    "playwright_start w = Ok ()" "connect_over_cdp w = Ok ()" "has_context w"
    "new_page w = Ok ()" "goto w url = Ok ()" "wait_for_load w = Ok ()"
    "text_content w = Ok (Some t)"
    by (rule reads_page_text_facts)
  from assms(2) have none: "find_word (tables w) patterns t = Ok None"
    by (simp add: find_word_none_iff)
  show "snd (fetch_nyt_wordle w) = Returned None"
    using facts none
    by (simp add: snd_fetch snd_session snd_try_body snd_extract_word)
  have raised: "snd (try_body w tomorrow gn url) = Ok None"
    using facts none by (simp add: snd_try_body snd_extract_word)
  show "\<exists>pre. fst (fetch_nyt_wordle w) = pre @ fst (not_found w t) @ [PlaywrightStop]"
    using facts none raised
    by (simp add: fst_fetch fst_session fst_try_body fst_extract_word)
  show "filter is_new_page (fst (fetch_nyt_wordle w)) = [NewPage]"
    using facts by (simp add: fetch_opens)
  have quiet: "filter is_close (reveal w) = []"
    by (rule reveal_quiet; simp)
  have "filter is_close (save_debug w t) = []"
    by (simp add: save_debug_def could_not_save_def split: outcome.splits)
  then show "filter is_close (fst (fetch_nyt_wordle w)) = []"
    using facts none raised quiet
    by (simp add: fst_fetch fst_session fst_try_body fst_extract_word fst_not_found
          filter_map_Print)
qed


lemma no_answer_reads: "reads_page_text no_answer_world (u ''come back later'')"
  by (simp add: reads_page_text_def loads_page_def opens_page_def no_answer_world_def
        happy_world_def happy_target)

lemma no_answer_none:
  "\<forall>p\<in>set patterns. re_search (tables no_answer_world) p (u ''come back later'') = None"
proof -
  have "tables no_answer_world = ascii_tables"
    by (simp add: no_answer_world_def happy_world_def)
  with no_answer_no_match show ?thesis by simp
qed

text \<open>
  Claim C3. When the text of the page is read and no pattern matches anywhere in
  it, \<open>fetch_nyt_wordle\<close> prints that the answer could not be found and returns
  \<open>None\<close>; \<open>main\<close> then prints that the fetch failed and ends without running the
  external command.
\<close>

theorem no_match_short_circuits:
  assumes "reads_page_text w t" and "\<forall>p\<in>set patterns. re_search (tables w) p t = None"
  shows "snd (fetch_nyt_wordle w) = Returned None
         \<and> Print (u ''[ERROR] Could not find the Wordle answer on the page.'')
             \<in> set (fst (fetch_nyt_wordle w))
         \<and> filter is_subprocess (fst (main w)) = []
         \<and> suffix [Print [], Print (u ''[FAILED] Could not fetch Wordle word'')] (fst (main w))
         \<and> snd (main w) = Returned ()"
proof -
  note run = no_answer_run [OF assms]
  from run(2) obtain pre where
    "fst (fetch_nyt_wordle w) = pre @ fst (not_found w t) @ [PlaywrightStop]" by blast
  then have "Print (u ''[ERROR] Could not find the Wordle answer on the page.'')
               \<in> set (fst (fetch_nyt_wordle w))"
    by (simp add: fst_not_found)
  moreover have "filter is_subprocess (fst (main w)) = []"
    using run(1) by (simp add: main_subprocess)
  moreover have "suffix [Print [], Print (u ''[FAILED] Could not fetch Wordle word'')] (fst (main w))"
    using run(1) by (simp add: fst_main suffix_def)
  moreover have "snd (main w) = Returned ()"
    using run(1) by (simp add: snd_main)
  ultimately show ?thesis using run(1) by blast
qed

text \<open>The theorem at a page that says \<open>come back later\<close>.\<close>

theorem no_match_short_circuits_witness:
  "reads_page_text no_answer_world (u ''come back later'')
   \<and> find_word (tables no_answer_world) patterns (u ''come back later'') = Ok None
   \<and> snd (fetch_nyt_wordle no_answer_world) = Returned None
   \<and> filter is_subprocess (fst (main no_answer_world)) = []"
  using no_match_short_circuits [OF no_answer_reads no_answer_none]
    no_answer_reads no_answer_none
  by (simp add: find_word_none_iff)

subsection \<open>No browser to connect to\<close>

lemma guidance_lines:
  "u ''[ERROR] Could not connect to browser'' \<in> set connect_guidance"
  "u ''Please start Edge or Chrome with remote debugging enabled:'' \<in> set connect_guidance"
  by (simp_all add: connect_guidance_def)

text \<open>
  Claim C5. When the connection to the debugging port fails, \<open>fetch_nyt_wordle\<close>
  prints the error and the guidance and returns \<open>None\<close>. Apart from printing, the
  whole run starts the library, tries the connection and stops the library: it
  opens no tab, navigates nowhere, reads no page and runs no command.
\<close>

theorem connection_failure_short_circuits:
  assumes "compute_target (now_first w) (now_second w) = Ok (tomorrow, gn, url)"
    and "playwright_start w = Ok ()" and "connect_over_cdp w = Raise e"
  shows "fetch_nyt_wordle w =
           (map Print (banner tomorrow gn url)
              @ [PlaywrightStart, Print (u ''Connecting to your browser...''),
                 ConnectOverCDP (u ''http://localhost:9222'')]
              @ map Print connect_guidance @ [PlaywrightStop],
            Returned None)
         \<and> u ''[ERROR] Could not connect to browser'' \<in> set connect_guidance
         \<and> u ''Please start Edge or Chrome with remote debugging enabled:''
              \<in> set connect_guidance
         \<and> filter (\<lambda>ev. \<not> is_print ev) (fst (main w))
              = [PlaywrightStart, ConnectOverCDP (u ''http://localhost:9222''), PlaywrightStop]
         \<and> snd (main w) = Returned ()"
proof -
  have run: "fetch_nyt_wordle w =
           (map Print (banner tomorrow gn url)
              @ [PlaywrightStart, Print (u ''Connecting to your browser...''),
                 ConnectOverCDP (u ''http://localhost:9222'')]
              @ map Print connect_guidance @ [PlaywrightStop],
            Returned None)"
    using assms by (simp add: fetch_nyt_wordle_def session_def say_def emit_def)
  have quiet: "\<And>ls. filter (\<lambda>ev. \<not> is_print ev) (map Print ls) = []"
    by (rule filter_map_Print) simp
  have "filter (\<lambda>ev. \<not> is_print ev) (fst (main w))
              = [PlaywrightStart, ConnectOverCDP (u ''http://localhost:9222''), PlaywrightStop]"
    by (simp add: fst_main run quiet)
  moreover have "snd (main w) = Returned ()"
    by (simp add: snd_main run)
  ultimately show ?thesis using run guidance_lines by blast
qed

text \<open>The theorem at a run with no browser listening.\<close>

theorem connection_failure_short_circuits_witness:
  "compute_target (now_first no_browser_world) (now_second no_browser_world)
     = Ok (noon\<lparr>day := 5\<rparr>, 1965,
           u ''https://www.nytimes.com/2026/11/04/crosswords/wordle-review-1965.html'')
   \<and> playwright_start no_browser_world = Ok ()
   \<and> connect_over_cdp no_browser_world = Raise (u ''connect ECONNREFUSED'')
   \<and> snd (fetch_nyt_wordle no_browser_world) = Returned None
   \<and> filter (\<lambda>ev. \<not> is_print ev) (fst (main no_browser_world))
        = [PlaywrightStart, ConnectOverCDP (u ''http://localhost:9222''), PlaywrightStop]"
proof -
  have target: "compute_target (now_first no_browser_world) (now_second no_browser_world)
     = Ok (noon\<lparr>day := 5\<rparr>, 1965,
           u ''https://www.nytimes.com/2026/11/04/crosswords/wordle-review-1965.html'')"
    by (simp add: no_browser_world_def happy_world_def happy_target)
  have start: "playwright_start no_browser_world = Ok ()"
    and refused: "connect_over_cdp no_browser_world = Raise (u ''connect ECONNREFUSED'')"
    by (simp_all add: no_browser_world_def happy_world_def)
  from connection_failure_short_circuits [OF target start refused] target start refused
  show ?thesis by simp
qed

subsection \<open>No reveal button\<close>

lemma reveal_loop_unclicked:
  assumes "\<forall>s\<in>set sels. wait_for_selector w s \<noteq> Ok True \<or> (\<exists>e. click w s = Raise e)"
  shows "snd (reveal_loop w sels) = False \<and> filter is_print (fst (reveal_loop w sels)) = []"
  using assms by (induction sels) (auto split: outcome.splits bool.splits)

lemma reveal_unclicked:
  assumes "\<forall>s\<in>set reveal_selectors. wait_for_selector w s \<noteq> Ok True \<or> (\<exists>e. click w s = Raise e)"
  shows "filter is_print (reveal w) =
           [Print (u ''[WARNING] Could not find reveal button, trying to extract anyway...'')]"
proof (cases "reveal_loop w reveal_selectors")
  case (Pair evs clicked)
  with reveal_loop_unclicked [OF assms] show ?thesis by (simp add: reveal_def)
qed

lemma loaded_trace:
  assumes "loads_page w"
  shows "\<exists>pre post. fst (fetch_nyt_wordle w) =
           pre @ reveal w
             @ [Print (u ''[4/4] Extracting Wordle answer from page...''), TextContent (u ''body'')]
             @ post"
proof -
  from assms obtain tomorrow gn url where facts:
    "compute_target (now_first w) (now_second w) = Ok (tomorrow, gn, url)"
    "playwright_start w = Ok ()" "connect_over_cdp w = Ok ()" "has_context w"
    "new_page w = Ok ()" "goto w url = Ok ()" "wait_for_load w = Ok ()"
    by (auto simp: loads_page_def opens_page_def split: outcome.splits)
  let ?pre = "map Print (banner tomorrow gn url)
      @ [PlaywrightStart, Print (u ''Connecting to your browser...''),
         ConnectOverCDP (u ''http://localhost:9222''), Print (u ''[OK] Connected to browser!''),
         NewPage, Print (u ''[1/4] Navigating to NYT review article...''),
         Goto url 30000 (u ''domcontentloaded''), WaitForTimeout 2000,
         Print (u ''[2/4] Page loaded successfully!''),
         Print (u ''[3/4] Looking for '' @ apostrophe @ u ''Click to reveal'' @ apostrophe
                  @ u '' button...'')]"
  let ?post = "(case text_content w of
                  Raise e \<Rightarrow> []
                | Ok page_text \<Rightarrow> fst (extract_word w tomorrow gn page_text))
               @ (case snd (try_body w tomorrow gn url) of
                    Ok r \<Rightarrow> []
                  | Raise e \<Rightarrow> handler w e)
               @ [PlaywrightStop]"
  have "fst (fetch_nyt_wordle w) =
           ?pre @ reveal w
             @ [Print (u ''[4/4] Extracting Wordle answer from page...''), TextContent (u ''body'')]
             @ ?post"
    using facts by (simp add: fst_fetch fst_session fst_try_body)
  then show ?thesis by blast
qed

lemma result_ignores_reveal:
  "snd (fetch_nyt_wordle (w\<lparr>wait_for_selector := f, click := g, wait_after_click := h\<rparr>))
     = snd (fetch_nyt_wordle w)"
proof -
  let ?w = "w\<lparr>wait_for_selector := f, click := g, wait_after_click := h\<rparr>"
  have same_finish: "snd (finish ?w wd tomorrow gn) = snd (finish w wd tomorrow gn)"
    for wd tomorrow gn
    by (simp add: snd_finish split: outcome.splits)
  have same_extract: "snd (extract_word ?w tomorrow gn page_text)
                   = snd (extract_word w tomorrow gn page_text)"
    for tomorrow gn page_text
    by (simp add: snd_extract_word same_finish split: option.splits outcome.splits)
  have same_body: "snd (try_body ?w tomorrow gn url) = snd (try_body w tomorrow gn url)"
    for tomorrow gn url
    by (simp add: snd_try_body same_extract split: outcome.splits)
  have same_session: "snd (session ?w tomorrow gn url) = snd (session w tomorrow gn url)"
    for tomorrow gn url
    by (simp add: snd_session same_body split: outcome.splits)
  show ?thesis
    by (simp add: snd_fetch same_session split: outcome.splits prod.splits)
qed

text \<open>
  Claim C10. When the page is loaded and no selector gives an element that can be
  clicked, the reveal block prints the warning and nothing else, and the trace goes
  on from it to the extraction: the line \<open>[4/4]\<close> and the reading of the page text
  follow at once. Whatever waiting for a selector, clicking and pausing do, the
  value that \<open>fetch_nyt_wordle\<close> returns is the same.
\<close>

theorem reveal_failure_is_not_fatal:
  assumes "loads_page w"
    and "\<forall>s\<in>set reveal_selectors. wait_for_selector w s \<noteq> Ok True \<or> (\<exists>e. click w s = Raise e)"
  shows "filter is_print (reveal w) =
           [Print (u ''[WARNING] Could not find reveal button, trying to extract anyway...'')]
         \<and> (\<exists>pre post. fst (fetch_nyt_wordle w) =
               pre @ reveal w
                 @ [Print (u ''[4/4] Extracting Wordle answer from page...''),
                    TextContent (u ''body'')]
                 @ post)
         \<and> (\<forall>f g h.
               snd (fetch_nyt_wordle (w\<lparr>wait_for_selector := f, click := g, wait_after_click := h\<rparr>))
                 = snd (fetch_nyt_wordle w))"
  using reveal_unclicked [OF assms(2)] loaded_trace [OF assms(1)] result_ignores_reveal
  by blast

text \<open>The theorem at a page with no reveal button: the word is fetched all the same.\<close>

theorem reveal_failure_is_not_fatal_witness:
  "loads_page no_button_world
   \<and> list_all (\<lambda>s. wait_for_selector no_button_world s
                       = Raise (u ''Timeout 3000ms exceeded'')) reveal_selectors
   \<and> filter is_print (reveal no_button_world) =
           [Print (u ''[WARNING] Could not find reveal button, trying to extract anyway...'')]
   \<and> snd (fetch_nyt_wordle no_button_world) = Returned (Some fruit)"
proof -
  have loads: "loads_page no_button_world"
    by (simp add: loads_page_def opens_page_def no_button_world_def happy_world_def happy_target)
  have timeouts: "\<forall>s\<in>set reveal_selectors.
         wait_for_selector no_button_world s \<noteq> Ok True \<or> (\<exists>e. click no_button_world s = Raise e)"
    by (simp add: no_button_world_def)
  have restored: "no_button_world\<lparr>wait_for_selector := wait_for_selector happy_world,
                click := click happy_world, wait_after_click := wait_after_click happy_world\<rparr>
              = happy_world"
    by (simp add: no_button_world_def happy_world_def)
  note claim = reveal_failure_is_not_fatal [OF loads timeouts]
  from claim have "snd (fetch_nyt_wordle no_button_world) = snd (fetch_nyt_wordle happy_world)"
    using restored by metis
  moreover have "list_all (\<lambda>s. wait_for_selector no_button_world s
                       = Raise (u ''Timeout 3000ms exceeded'')) reveal_selectors"
    by (simp add: list_all_iff no_button_world_def)
  ultimately show ?thesis using claim loads happy_fetch by simp
qed

subsection \<open>Closing the page and the browser\<close>









subsection \<open>The record that is returned\<close>









end
